theory Spec2Isabelle
  imports Complex_Main "HOL-Library.Sublist" "HOL-Library.Multiset"
begin

section \<open>Python primitives used by \<^verbatim>\<open>similarity.py\<close>\<close>

text \<open>
  A Python \<^verbatim>\<open>str\<close> is modelled as a \<^typ>\<open>string\<close> whose characters are the code
  points U+0000 to U+00FF. The three character classes below are the ones CPython uses
  on that range: \<^verbatim>\<open>\s\<close> and \<^verbatim>\<open>str.strip\<close> share \<open>is_space\<close>, \<^verbatim>\<open>\w\<close> is
  \<^verbatim>\<open>str.isalnum\<close> or the underscore, and \<^verbatim>\<open>str.lower\<close> shifts the upper-case letters
  by 32. Scores are Python floats. The ranking is modelled over the real numbers, which is
  exact arithmetic; the metadata similarity is given a second time in double
  arithmetic, for the one property that depends on rounding, its range.
\<close>

definition is_space :: "char \<Rightarrow> bool" where
  "is_space c =
     (let n = (of_char c :: nat)
      in (9 \<le> n \<and> n \<le> 13) \<or> (28 \<le> n \<and> n \<le> 32) \<or> n = 133 \<or> n = 160)"

definition is_alnum :: "char \<Rightarrow> bool" where
  "is_alnum c =
     (let n = (of_char c :: nat)
      in (48 \<le> n \<and> n \<le> 57) \<or> (65 \<le> n \<and> n \<le> 90) \<or> (97 \<le> n \<and> n \<le> 122)
         \<or> n = 170 \<or> n = 178 \<or> n = 179 \<or> n = 181 \<or> n = 185 \<or> n = 186
         \<or> (188 \<le> n \<and> n \<le> 190) \<or> (192 \<le> n \<and> n \<le> 214)
         \<or> (216 \<le> n \<and> n \<le> 246) \<or> (248 \<le> n \<and> n \<le> 255))"

definition is_word :: "char \<Rightarrow> bool" where
  "is_word c = (is_alnum c \<or> c = CHR ''_'')"

definition lower_char :: "char \<Rightarrow> char" where
  "lower_char c =
     (let n = (of_char c :: nat)
      in if (65 \<le> n \<and> n \<le> 90) \<or> (192 \<le> n \<and> n \<le> 214) \<or> (216 \<le> n \<and> n \<le> 222)
         then char_of (n + 32) else c)"

definition lower :: "string \<Rightarrow> string" where
  "lower s = map lower_char s"

text \<open>\<^verbatim>\<open>re.sub(r"[^\w\s]", " ", s)\<close>: every character that is neither a word character
  nor whitespace becomes one space.\<close>

definition sub_non_word :: "string \<Rightarrow> string" where
  "sub_non_word s = map (\<lambda>c. if is_word c \<or> is_space c then c else CHR '' '') s"

text \<open>\<^verbatim>\<open>re.sub(r"\s+", " ", s)\<close>: the scan copies a character that is not whitespace, and
  at a whitespace character it consumes the whole run and emits one space.\<close>

function sub_spaces :: "string \<Rightarrow> string" where
  "sub_spaces [] = []"
| "sub_spaces (c # cs) =
     (if is_space c then CHR '' '' # sub_spaces (dropWhile is_space cs)
      else c # sub_spaces cs)"
  by pat_completeness auto
termination
  by (relation "measure length") (auto simp: length_dropWhile_le less_Suc_eq_le)

text \<open>\<^verbatim>\<open>s.strip()\<close>: whitespace is removed at both ends.\<close>

definition strip :: "string \<Rightarrow> string" where
  "strip s = rev (dropWhile is_space (rev (dropWhile is_space s)))"

text \<open>\<^verbatim>\<open>sep.join(xs)\<close>.\<close>

fun join :: "string \<Rightarrow> string list \<Rightarrow> string" where
  "join sep [] = []"
| "join sep [x] = x"
| "join sep (x # y # ys) = x @ sep @ join sep (y # ys)"

text \<open>\<^verbatim>\<open>xs[:n]\<close> for an integer \<open>n\<close>: a negative bound counts from the end.\<close>

definition slice_to :: "'a list \<Rightarrow> int \<Rightarrow> 'a list" where
  "slice_to xs n =
     (if 0 \<le> n then take (nat n) xs else take (length xs - nat (- n)) xs)"

text \<open>\<^verbatim>\<open>xs.sort(key=f, reverse=True)\<close> and \<^verbatim>\<open>sorted(xs, key=f, reverse=True)\<close>: Python's
  sort is stable, also with \<^verbatim>\<open>reverse=True\<close>; it is modelled by the stable insertion
  sort of the library on the negated key.\<close>

definition sort_reverse :: "('a \<Rightarrow> real) \<Rightarrow> 'a list \<Rightarrow> 'a list" where
  "sort_reverse f xs = sort_key (\<lambda>x. - f x) xs"

text \<open>\<^verbatim>\<open>d.get(key, default)\<close>, with \<open>None\<close> for a key the dictionary lacks.\<close>

definition dict_get :: "'a \<Rightarrow> 'a option \<Rightarrow> 'a" where
  "dict_get d v = (case v of None \<Rightarrow> d | Some x \<Rightarrow> x)"

subsection \<open>Double arithmetic\<close>

text \<open>Rounding a real number to the nearest integer, a tie going to the even one.\<close>

definition round_even :: "real \<Rightarrow> int" where
  "round_even r =
     (let f = \<lfloor>r\<rfloor>; d = r - of_int f
      in if d < 1 / 2 then f else if 1 / 2 < d then f + 1 else if even f then f else f + 1)"

text \<open>The binary exponent of a number as a double: that of its binade, and \<open>-1022\<close> for
  the subnormal numbers.\<close>

definition exponent :: "real \<Rightarrow> int" where
  "exponent x = max \<lfloor>log 2 \<bar>x\<bar>\<rfloor> (- 1022)"

text \<open>The distance between neighbouring doubles around \<open>x\<close>: 52 fraction bits.\<close>

definition quantum :: "real \<Rightarrow> real" where
  "quantum x = 2 powr of_int (exponent x - 52)"

text \<open>The IEEE 754 binary64 number nearest to a real number, ties to even: the value of a
  Python float literal, and what \<^verbatim>\<open>+\<close>, \<^verbatim>\<open>-\<close>, \<^verbatim>\<open>*\<close> and \<^verbatim>\<open>/\<close> return when applied to the exact
  result (the division of two Python integers is correctly rounded too). Overflow to
  infinity is not modelled; no number in the metadata similarity of two books in the
  documented domains comes near it.\<close>

definition double :: "real \<Rightarrow> real" where
  "double x = (if x = 0 then 0 else of_int (round_even (x / quantum x)) * quantum x)"

text \<open>The only exception that leaves the engine: \<^verbatim>\<open>book["id"]\<close> on a book with no id.\<close>

datatype error = KeyError

section \<open>The text preprocessor\<close>

text \<open>\<^verbatim>\<open>preprocess_text\<close>; \<open>None\<close> is Python's \<^verbatim>\<open>None\<close>, which \<^verbatim>\<open>not text\<close> accepts as
  it accepts the empty string.\<close>

definition preprocess_text :: "string option \<Rightarrow> string" where
  "preprocess_text text =
     (case text of
        None \<Rightarrow> []
      | Some t \<Rightarrow>
          if t = [] then []
          else strip (sub_spaces (sub_non_word (lower t))))"


section \<open>Book records\<close>

text \<open>A book is a dictionary; the engine reads the seven keys below. \<open>None\<close> is a key
  the dictionary lacks (the history books of \<^verbatim>\<open>parse_folder\<close> have no id, authors or
  categories). A rating or page count that is present with the value \<^verbatim>\<open>None\<close> is
  falsy as \<open>0\<close> is, and is read as absent too.\<close>

record book =
  book_id :: "string option"
  title :: "string option"
  authors :: "string list option"
  description :: "string option"
  categories :: "string list option"
  average_rating :: "real option"
  page_count :: "int option"

text \<open>\<^verbatim>\<open>_get_combined_text\<close>: the fields that are not empty, each preprocessed, joined
  by one space.\<close>

definition get_combined_text :: "book \<Rightarrow> string" where
  "get_combined_text b =
     (let text_fields =
        [dict_get [] (title b),
         join '' '' (dict_get [] (authors b)),
         dict_get [] (description b),
         join '' '' (dict_get [] (categories b))]
      in join '' '' (map (\<lambda>text. preprocess_text (Some text))
                         (filter (\<lambda>text. text \<noteq> []) text_fields)))"

section \<open>The vectorizer and the cosine\<close>

text \<open>Maximal runs of the characters that satisfy \<open>P\<close>, in order.\<close>

function runs :: "(char \<Rightarrow> bool) \<Rightarrow> string \<Rightarrow> string list" where
  "runs P [] = []"
| "runs P (c # cs) =
     (if P c then (c # takeWhile P cs) # runs P (dropWhile P cs) else runs P cs)"
  by pat_completeness auto
termination
  by (relation "measure (\<lambda>(P, s). length s)") (auto simp: length_dropWhile_le less_Suc_eq_le)

text \<open>Modelled from the spec: the TF-IDF vectorizer \<^verbatim>\<open>TfidfVectorizer(max_features=5000,
  stop_words="english", ngram_range=(1, 2))\<close> of scikit-learn, which is not under
  \<^verbatim>\<open>src/\<close>. The spec: term-frequency/inverse-document-frequency weighting over
  unigrams and bigrams, restricted to the most frequent terms of the corpus, with the
  English stop-words excluded. The stop-word table is a field of the vectorizer, and
  so is the choice among equally frequent terms when the vocabulary exceeds the cap,
  which sees only the cap, the corpus-wide counts and the vocabulary.\<close>

record tfidf_vectorizer =
  max_features :: nat
  stop_words :: "string list"
  top_features :: "nat \<Rightarrow> (string \<Rightarrow> nat) \<Rightarrow> string set \<Rightarrow> string set"

text \<open>Modelled from the spec: the tokens of a document, which scikit-learn (not under
  \<^verbatim>\<open>src/\<close>) takes as the runs of two or more word characters of the lower-cased
  text.\<close>

definition tokenize :: "string \<Rightarrow> string list" where
  "tokenize doc = filter (\<lambda>w. 2 \<le> length w) (runs is_word (lower doc))"

text \<open>Modelled from the spec: the bigrams of a token list, each pair of neighbours joined
  by one space.\<close>

definition bigrams :: "string list \<Rightarrow> string list" where
  "bigrams ts = map (\<lambda>(a, b). a @ '' '' @ b) (zip ts (tl ts))"

text \<open>Modelled from the spec: the terms of a document, its tokens that are not
  stop-words followed by their bigrams.\<close>

definition analyze :: "tfidf_vectorizer \<Rightarrow> string \<Rightarrow> string list" where
  "analyze v doc =
     (let ts = filter (\<lambda>w. w \<notin> set (stop_words v)) (tokenize doc)
      in ts @ bigrams ts)"

text \<open>Modelled from the spec: the magnitude of a vector over the vocabulary \<open>V\<close>.\<close>

definition l2_norm :: "string set \<Rightarrow> (string \<Rightarrow> real) \<Rightarrow> real" where
  "l2_norm V u = sqrt (\<Sum>t\<in>V. (u t)\<^sup>2)"

text \<open>Modelled from the spec: scaling a vector over the vocabulary \<open>V\<close> to unit
  length; a vector of magnitude zero stays as it is, as in scikit-learn.\<close>

definition l2_normalize :: "string set \<Rightarrow> (string \<Rightarrow> real) \<Rightarrow> string \<Rightarrow> real" where
  "l2_normalize V u =
     (let n = l2_norm V u
      in (\<lambda>t. if t \<in> V then u t / (if n = 0 then 1 else n) else 0))"

text \<open>Modelled from the spec: \<^verbatim>\<open>fit_transform\<close> on a list of documents. \<open>None\<close> is
  the \<^verbatim>\<open>ValueError\<close> raised when no document yields a term (an empty vocabulary).
  Otherwise the result is the vocabulary kept and one weighted unit vector for each
  document: the count of a term in the document times its inverse document
  frequency \<open>ln ((1 + n) / (1 + df)) + 1\<close>.\<close>

definition fit_transform ::
  "tfidf_vectorizer \<Rightarrow> string list \<Rightarrow> (string set \<times> (string \<Rightarrow> real) list) option" where
  "fit_transform v docs =
     (let analysed = map (analyze v) docs;
          vocabulary = set (concat analysed)
      in if vocabulary = {} then None
         else
           let total = (\<lambda>t. sum_list (map (\<lambda>ts. count_list ts t) analysed));
               kept = (if max_features v < card vocabulary
                       then top_features v (max_features v) total vocabulary
                       else vocabulary);
               df = (\<lambda>t. length (filter (\<lambda>ts. t \<in> set ts) analysed));
               idf = (\<lambda>t. ln ((1 + real (length docs)) / (1 + real (df t))) + 1);
               row = (\<lambda>ts. l2_normalize kept (\<lambda>t. real (count_list ts t) * idf t))
           in Some (kept, map row analysed))"

text \<open>Modelled from the spec: \<^verbatim>\<open>cosine_similarity\<close> of two vectors over \<open>V\<close>, the dot
  product of the two vectors scaled to unit length.\<close>

definition cosine_similarity ::
  "string set \<Rightarrow> (string \<Rightarrow> real) \<Rightarrow> (string \<Rightarrow> real) \<Rightarrow> real" where
  "cosine_similarity V u w = (\<Sum>t\<in>V. l2_normalize V u t * l2_normalize V w t)"

section \<open>The similarity engine\<close>

text \<open>The engine object: \<^verbatim>\<open>self.tfidf\<close> is the one field the methods read.\<close>

record engine =
  tfidf :: tfidf_vectorizer

definition CONTENT_WEIGHT :: real where
  "CONTENT_WEIGHT = 0.6"

definition METADATA_WEIGHT :: real where
  "METADATA_WEIGHT = 0.4"

text \<open>\<^verbatim>\<open>__init__\<close>, given the stop-word table and the tie-breaking of the library.\<close>

definition init :: "string list \<Rightarrow> (nat \<Rightarrow> (string \<Rightarrow> nat) \<Rightarrow> string set \<Rightarrow> string set) \<Rightarrow> engine" where
  "init english pick =
     \<lparr>tfidf = \<lparr>max_features = 5000, stop_words = english, top_features = pick\<rparr>\<rparr>"

text \<open>\<^verbatim>\<open>calculate_content_similarity\<close>: the vectorizer is fitted on the two combined
  texts; the \<^verbatim>\<open>ValueError\<close> is caught and gives \<open>0.0\<close>.\<close>

definition calculate_content_similarity :: "engine \<Rightarrow> book \<Rightarrow> book \<Rightarrow> real" where
  "calculate_content_similarity self book1 book2 =
     (let text1 = get_combined_text book1;
          text2 = get_combined_text book2
      in case fit_transform (tfidf self) [text1, text2] of
           None \<Rightarrow> 0
         | Some (V, tfidf_matrix) \<Rightarrow>
             cosine_similarity V (tfidf_matrix ! 0) (tfidf_matrix ! 1))"

text \<open>\<^verbatim>\<open>calculate_metadata_similarity\<close> in exact arithmetic: \<^verbatim>\<open>score\<close> grows by one term
  for each field that is truthy in both books.\<close>

definition calculate_metadata_similarity :: "book \<Rightarrow> book \<Rightarrow> real" where
  "calculate_metadata_similarity book1 book2 =
     (let score = 0;
          categories1 = set (dict_get [] (categories book1));
          categories2 = set (dict_get [] (categories book2));
          score = (if categories1 \<noteq> {} \<and> categories2 \<noteq> {}
                   then score + 0.4 * real (card (categories1 \<inter> categories2))
                                / real (max (card (categories1 \<union> categories2)) 1)
                   else score);
          authors1 = set (dict_get [] (authors book1));
          authors2 = set (dict_get [] (authors book2));
          score = (if authors1 \<noteq> {} \<and> authors2 \<noteq> {}
                   then score + 0.3 * real (card (authors1 \<inter> authors2))
                                / real (max (card (authors1 \<union> authors2)) 1)
                   else score);
          rating1 = dict_get 0 (average_rating book1);
          rating2 = dict_get 0 (average_rating book2);
          score = (if rating1 \<noteq> 0 \<and> rating2 \<noteq> 0
                   then score + 0.2 * (1 - \<bar>rating1 - rating2\<bar> / 5)
                   else score);
          pages1 = dict_get 0 (page_count book1);
          pages2 = dict_get 0 (page_count book2);
          score = (if pages1 \<noteq> 0 \<and> pages2 \<noteq> 0
                   then score + 0.1 * (1 - real_of_int \<bar>pages1 - pages2\<bar>
                                           / real_of_int (max pages1 pages2))
                   else score)
      in score)"

text \<open>\<^verbatim>\<open>calculate_metadata_similarity\<close> in the double arithmetic of the source: every
  literal, product, quotient, difference and sum is rounded to a double, in the order
  in which Python evaluates them.\<close>

definition calculate_metadata_similarity_double :: "book \<Rightarrow> book \<Rightarrow> real" where
  "calculate_metadata_similarity_double b1 b2 =
     (let score = 0;
          categories1 = set (dict_get [] (categories b1));
          categories2 = set (dict_get [] (categories b2));
          score = (if categories1 \<noteq> {} \<and> categories2 \<noteq> {}
                   then double (score +
                          double (double (double 0.4 * real (card (categories1 \<inter> categories2)))
                                  / real (max (card (categories1 \<union> categories2)) 1)))
                   else score);
          authors1 = set (dict_get [] (authors b1));
          authors2 = set (dict_get [] (authors b2));
          score = (if authors1 \<noteq> {} \<and> authors2 \<noteq> {}
                   then double (score +
                          double (double (double 0.3 * real (card (authors1 \<inter> authors2)))
                                  / real (max (card (authors1 \<union> authors2)) 1)))
                   else score);
          rating1 = dict_get 0 (average_rating b1);
          rating2 = dict_get 0 (average_rating b2);
          score = (if rating1 \<noteq> 0 \<and> rating2 \<noteq> 0
                   then double (score +
                          double (double 0.2 * double (1 - double (\<bar>double (rating1 - rating2)\<bar> / 5))))
                   else score);
          pages1 = dict_get 0 (page_count b1);
          pages2 = dict_get 0 (page_count b2);
          score = (if pages1 \<noteq> 0 \<and> pages2 \<noteq> 0
                   then double (score +
                          double (double 0.1 *
                                  double (1 - double (real_of_int \<bar>pages1 - pages2\<bar>
                                                      / real_of_int (max pages1 pages2)))))
                   else score)
      in score)"

text \<open>The loop of \<^verbatim>\<open>find_similar_books\<close>; \<open>similarities\<close> is the list built so far.\<close>

fun similarities_loop ::
  "engine \<Rightarrow> book \<Rightarrow> book list \<Rightarrow> (book \<times> real) list \<Rightarrow> (book \<times> real) list" where
  "similarities_loop self target_book [] similarities = similarities"
| "similarities_loop self target_book (candidate # rest) similarities =
     (if book_id candidate = book_id target_book
      then similarities_loop self target_book rest similarities
      else
        let content_sim = calculate_content_similarity self target_book candidate;
            metadata_sim = calculate_metadata_similarity target_book candidate;
            combined_sim = content_sim * CONTENT_WEIGHT + metadata_sim * METADATA_WEIGHT
        in similarities_loop self target_book rest (similarities @ [(candidate, combined_sim)]))"

definition find_similar_books ::
  "engine \<Rightarrow> book \<Rightarrow> book list \<Rightarrow> int \<Rightarrow> (book \<times> real) list" where
  "find_similar_books self target_book candidate_books num_recommendations =
     slice_to (sort_reverse snd (similarities_loop self target_book candidate_books []))
       num_recommendations"

text \<open>The inner loop of \<^verbatim>\<open>get_recommendations\<close>: \<^verbatim>\<open>scores[book["id"]] += sim_score /
  len(user_books)\<close> on a \<^verbatim>\<open>defaultdict(float)\<close>; \<open>n\<close> is \<^verbatim>\<open>len(user_books)\<close>.\<close>

fun add_scores ::
  "(book \<times> real) list \<Rightarrow> nat \<Rightarrow> (string \<rightharpoonup> real) \<Rightarrow> error + (string \<rightharpoonup> real)" where
  "add_scores [] n scores = Inr scores"
| "add_scores ((book, sim_score) # rest) n scores =
     (case book_id book of
        None \<Rightarrow> Inl KeyError
      | Some i \<Rightarrow> add_scores rest n (scores(i \<mapsto> dict_get 0 (scores i) + sim_score / real n)))"

text \<open>The outer loop, over the books of the history.\<close>

fun history_loop ::
  "engine \<Rightarrow> book list \<Rightarrow> book list \<Rightarrow> nat \<Rightarrow> (string \<rightharpoonup> real) \<Rightarrow> error + (string \<rightharpoonup> real)" where
  "history_loop self [] candidate_books n scores = Inr scores"
| "history_loop self (user_book # rest) candidate_books n scores =
     (let similar_books =
            find_similar_books self user_book candidate_books (int (length candidate_books))
      in case add_scores similar_books n scores of
           Inl e \<Rightarrow> Inl e
         | Inr scores' \<Rightarrow> history_loop self rest candidate_books n scores')"

text \<open>The accumulated scores when both loops are done.\<close>

definition accumulated_scores :: "engine \<Rightarrow> book list \<Rightarrow> book list \<Rightarrow> error + (string \<rightharpoonup> real)" where
  "accumulated_scores self user_books candidate_books =
     history_loop self user_books candidate_books (length user_books) Map.empty"

text \<open>The comprehension \<^verbatim>\<open>[(book, scores[book["id"]]) for book in candidate_books if
  book["id"] in scores]\<close>.\<close>

fun scored_candidates :: "book list \<Rightarrow> (string \<rightharpoonup> real) \<Rightarrow> error + (book \<times> real) list" where
  "scored_candidates [] scores = Inr []"
| "scored_candidates (book # rest) scores =
     (case book_id book of
        None \<Rightarrow> Inl KeyError
      | Some i \<Rightarrow>
          (case scored_candidates rest scores of
             Inl e \<Rightarrow> Inl e
           | Inr entries \<Rightarrow>
               Inr (case scores i of None \<Rightarrow> entries | Some s \<Rightarrow> (book, s) # entries)))"

definition get_recommendations ::
  "engine \<Rightarrow> book list \<Rightarrow> book list \<Rightarrow> int \<Rightarrow> error + book list" where
  "get_recommendations self user_books candidate_books num_recommendations =
     (case accumulated_scores self user_books candidate_books of
        Inl e \<Rightarrow> Inl e
      | Inr scores \<Rightarrow>
          (case scored_candidates candidate_books scores of
             Inl e \<Rightarrow> Inl e
           | Inr entries \<Rightarrow>
               let ranked_books = sort_reverse snd entries
               in Inr (map fst (slice_to ranked_books num_recommendations))))"

section \<open>Auxiliary notions for the statements\<close>

text \<open>\<^verbatim>\<open>s.rstrip()\<close>, the right half of \<open>strip\<close>.\<close>

definition rstrip :: "string \<Rightarrow> string" where
  "rstrip s = rev (dropWhile is_space (rev s))"

text \<open>The blend of the two similarities as the specification writes it.\<close>

definition combined :: "engine \<Rightarrow> book \<Rightarrow> book \<Rightarrow> real" where
  "combined self a b =
     0.6 * calculate_content_similarity self a b + 0.4 * calculate_metadata_similarity a b"

text \<open>The candidates whose id differs from the target's, in their order, and the same
  list with the blended score beside each candidate.\<close>

definition others :: "book \<Rightarrow> book list \<Rightarrow> book list" where
  "others target candidates = filter (\<lambda>c. book_id c \<noteq> book_id target) candidates"

definition scored :: "engine \<Rightarrow> book \<Rightarrow> book list \<Rightarrow> (book \<times> real) list" where
  "scored self target candidates = map (\<lambda>c. (c, combined self target c)) (others target candidates)"

text \<open>The accumulated score of a book under a score table.\<close>

definition score_of :: "(string \<rightharpoonup> real) \<Rightarrow> book \<Rightarrow> real option" where
  "score_of scores b = (case book_id b of None \<Rightarrow> None | Some i \<Rightarrow> scores i)"

text \<open>The documented domains: a rating, when present, lies in \<open>[0, 5]\<close>, and a page
  count, when present, is not negative.\<close>

definition in_domain :: "book \<Rightarrow> bool" where
  "in_domain b =
     ((case average_rating b of None \<Rightarrow> True | Some r \<Rightarrow> 0 \<le> r \<and> r \<le> 5) \<and>
      (case page_count b of None \<Rightarrow> True | Some p \<Rightarrow> 0 \<le> p))"

text \<open>The overlap of two sets: shared members over all members.\<close>

definition jaccard :: "string set \<Rightarrow> string set \<Rightarrow> real" where
  "jaccard A B = real (card (A \<inter> B)) / real (card (A \<union> B))"

text \<open>The two books of the module's demonstration, and an engine with a few of the
  English stop-words.\<close>

definition book1 :: book where
  "book1 =
     \<lparr>book_id = Some ''1'', title = Some ''The Hobbit'', authors = Some [''J.R.R. Tolkien''],
      description = Some ''A fantasy novel about a hobbit who goes on an adventure.'',
      categories = Some [''Fantasy'', ''Adventure''],
      average_rating = Some 4.5, page_count = Some 300\<rparr>"

definition book2 :: book where
  "book2 =
     \<lparr>book_id = Some ''2'', title = Some ''The Lord of the Rings'',
      authors = Some [''J.R.R. Tolkien''],
      description = Some ''An epic fantasy novel about a quest to destroy a powerful ring.'',
      categories = Some [''Fantasy'', ''Epic''],
      average_rating = Some 4.7, page_count = Some 1200\<rparr>"

definition demo_engine :: engine where
  "demo_engine = init [''a'', ''an'', ''the'', ''of'', ''to'', ''on'', ''about'', ''who''] (\<lambda>n total V. V)"

text \<open>A book with no text at all: only an id (or none) and a rating.\<close>

definition rated :: "string option \<Rightarrow> real \<Rightarrow> book" where
  "rated i r =
     \<lparr>book_id = i, title = None, authors = None, description = None, categories = None,
      average_rating = Some r, page_count = None\<rparr>"

text \<open>The result of \<open>fit_transform\<close> on two documents, written out: the vocabulary, the
  vocabulary kept under the cap, the inverse document frequency and the row of a
  document.\<close>

definition pair_vocabulary :: "tfidf_vectorizer \<Rightarrow> string \<Rightarrow> string \<Rightarrow> string set" where
  "pair_vocabulary v x y = set (analyze v x) \<union> set (analyze v y)"

definition pair_kept :: "tfidf_vectorizer \<Rightarrow> string \<Rightarrow> string \<Rightarrow> string set" where
  "pair_kept v x y =
     (if max_features v < card (pair_vocabulary v x y)
      then top_features v (max_features v)
             (\<lambda>t. count_list (analyze v x) t + count_list (analyze v y) t) (pair_vocabulary v x y)
      else pair_vocabulary v x y)"

definition pair_idf :: "tfidf_vectorizer \<Rightarrow> string \<Rightarrow> string \<Rightarrow> string \<Rightarrow> real" where
  "pair_idf v x y t =
     ln (3 / (1 + real ((if t \<in> set (analyze v x) then 1 else 0) +
                        (if t \<in> set (analyze v y) then 1 else (0::nat))))) + 1"

definition pair_row :: "tfidf_vectorizer \<Rightarrow> string \<Rightarrow> string \<Rightarrow> string \<Rightarrow> string \<Rightarrow> real" where
  "pair_row v x y d =
     l2_normalize (pair_kept v x y) (\<lambda>t. real (count_list (analyze v d) t) * pair_idf v x y t)"

text \<open>What the entries of a ranking add to the score of the id \<open>i\<close>, for a history of
  \<open>n\<close> books.\<close>

definition contribution :: "(book \<times> real) list \<Rightarrow> nat \<Rightarrow> string \<Rightarrow> real" where
  "contribution sims n i =
     sum_list (map (\<lambda>e. snd e / real n) (filter (\<lambda>e. book_id (fst e) = Some i) sims))"

text \<open>The sub-scores in double arithmetic: the overlap of two sets weighted \<open>w\<close>, and
  the closeness \<open>1 - x\<close> weighted \<open>w\<close>.\<close>

definition overlap_double :: "real \<Rightarrow> string set \<Rightarrow> string set \<Rightarrow> real" where
  "overlap_double w A B =
     double (double (double w * real (card (A \<inter> B))) / real (card (A \<union> B)))"

definition closeness_double :: "real \<Rightarrow> real \<Rightarrow> real" where
  "closeness_double w x = double (double w * double (1 - double x))"

text \<open>One step of \<^verbatim>\<open>score += t\<close> under its condition.\<close>

definition add_term :: "bool \<Rightarrow> real \<Rightarrow> real \<Rightarrow> real" where
  "add_term present score t = (if present then double (score + t) else score)"

text \<open>A book with three categories, an author, a rating and a page count.\<close>

definition shared3 :: "string option \<Rightarrow> book" where
  "shared3 i =
     \<lparr>book_id = i, title = None, authors = Some [''Tolkien''], description = None,
      categories = Some [''Fantasy'', ''Adventure'', ''Epic''],
      average_rating = Some 4.5, page_count = Some 300\<rparr>"

section \<open>The text preprocessor: normal form\<close>

lemma is_space_blank [simp]: "is_space CHR '' ''"
  by (simp add: is_space_def)

lemma sub_spaces_word_append:
  "\<forall>c\<in>set w. \<not> is_space c \<Longrightarrow> sub_spaces (w @ r) = w @ sub_spaces r"
  by (induction w) auto

lemma sub_spaces_Nil_iff [simp]: "sub_spaces s = [] \<longleftrightarrow> s = []"
  by (cases s) auto

lemma dropWhile_sub_spaces:
  "dropWhile is_space (sub_spaces s) = sub_spaces (dropWhile is_space s)"
proof -
  have start: "dropWhile is_space (sub_spaces r) = sub_spaces r"
    if "r = [] \<or> \<not> is_space (hd r)" for r
    using that by (cases r) auto
  show ?thesis
  proof (cases s)
    case Nil
    then show ?thesis by simp
  next
    case (Cons c cs)
    show ?thesis
    proof (cases "is_space c")
      case True
      have "dropWhile is_space cs = [] \<or> \<not> is_space (hd (dropWhile is_space cs))"
        using hd_dropWhile [of is_space cs] by blast
      from start [OF this] True Cons show ?thesis by simp
    next
      case False
      with Cons show ?thesis by simp
    qed
  qed
qed

lemma rstrip_Nil [simp]: "rstrip [] = []"
  by (simp add: rstrip_def)

lemma rstrip_snoc:
  "rstrip (xs @ [c]) = (if is_space c then rstrip xs else xs @ [c])"
  by (simp add: rstrip_def)

lemma rstrip_append:
  "rstrip (xs @ ys) = (if rstrip ys = [] then rstrip xs else xs @ rstrip ys)"
  by (induction ys rule: rev_induct) (auto simp: rstrip_snoc simp flip: append_assoc)

lemma rstrip_blank_Cons:
  "rstrip (CHR '' '' # xs) = (if rstrip xs = [] then [] else CHR '' '' # rstrip xs)"
proof -
  have "rstrip [CHR '' ''] = []" using rstrip_snoc [of "[]" "CHR '' ''"] by simp
  then show ?thesis using rstrip_append [of "[CHR '' '']" xs] by simp
qed

lemma rstrip_word:
  "w \<noteq> [] \<Longrightarrow> \<not> is_space (last w) \<Longrightarrow> rstrip w = w"
  by (cases w rule: rev_cases) (auto simp: rstrip_snoc)

lemma runs_nonempty: "w \<in> set (runs P s) \<Longrightarrow> w \<noteq> []"
  by (induction P s rule: runs.induct) (auto split: if_splits)

lemma join_runs_Nil_iff: "join sep (runs P s) = [] \<longleftrightarrow> runs P s = []"
proof (cases "runs P s")
  case Nil
  then show ?thesis by simp
next
  case (Cons w ws)
  then have "w \<noteq> []" using runs_nonempty [of w P s] by simp
  with Cons show ?thesis by (cases ws) auto
qed

lemma join_Cons: "join sep (w # ws) = (if ws = [] then w else w @ sep @ join sep ws)"
  by (cases ws) auto

lemma rstrip_sub_spaces:
  "rstrip (sub_spaces (dropWhile is_space s)) = join '' '' (runs (\<lambda>c. \<not> is_space c) s)"
proof (induction "\<lambda>c. \<not> is_space c" s rule: runs.induct)
  case 1
  show ?case by simp
next
  case (2 c cs)
  show ?case
  proof (cases "is_space c")
    case True
    with 2 show ?thesis by simp
  next
    case False
    define w where "w = c # takeWhile (\<lambda>x. \<not> is_space x) cs"
    define r where "r = dropWhile (\<lambda>x. \<not> is_space x) cs"
    have s: "c # cs = w @ r" by (simp add: w_def r_def)
    have w: "\<forall>x\<in>set w. \<not> is_space x" "w \<noteq> []"
      using False by (auto simp: w_def dest: set_takeWhileD)
    then have lw: "\<not> is_space (last w)" using last_in_set by blast
    have IH: "rstrip (sub_spaces (dropWhile is_space r)) = join '' '' (runs (\<lambda>c. \<not> is_space c) r)"
      using 2(1) False by (simp add: r_def)
    have sp: "runs (\<lambda>c. \<not> is_space c) (c # cs) = w # runs (\<lambda>c. \<not> is_space c) r"
      using False by (simp add: w_def r_def)
    have r: "sub_spaces r = (if r = [] then [] else CHR '' '' # sub_spaces (dropWhile is_space r))"
    proof (cases r)
      case Nil
      then show ?thesis by simp
    next
      case (Cons d ds)
      then have "is_space d" using hd_dropWhile [of "\<lambda>x. \<not> is_space x" cs] by (simp add: r_def)
      with Cons show ?thesis by simp
    qed
    have "rstrip (sub_spaces (dropWhile is_space (c # cs))) = rstrip (w @ sub_spaces r)"
    proof -
      have "dropWhile is_space (c # cs) = c # cs" using False by simp
      then show ?thesis using sub_spaces_word_append [OF w(1), of r] s by simp
    qed
    also have "\<dots> = join '' '' (w # runs (\<lambda>c. \<not> is_space c) r)"
    proof (cases "r = []")
      case True
      then show ?thesis using rstrip_word [OF w(2) lw] by (simp add: rstrip_append)
    next
      case nr: False
      have "rstrip (CHR '' '' # sub_spaces (dropWhile is_space r)) =
            (if runs (\<lambda>c. \<not> is_space c) r = [] then []
             else CHR '' '' # join '' '' (runs (\<lambda>c. \<not> is_space c) r))"
        using rstrip_blank_Cons [of "sub_spaces (dropWhile is_space r)"]
        by (simp add: IH join_runs_Nil_iff)
      then show ?thesis
        using nr r rstrip_word [OF w(2) lw]
        by (simp add: rstrip_append join_Cons join_runs_Nil_iff)
    qed
    finally show ?thesis unfolding sp .
  qed
qed

lemma strip_sub_spaces: "strip (sub_spaces s) = join '' '' (runs (\<lambda>c. \<not> is_space c) s)"
  using rstrip_sub_spaces [of s] by (simp add: strip_def rstrip_def dropWhile_sub_spaces)

text \<open>
  Claim C2, as the specification states it, fails on the underscore: it is neither a
  letter, a digit nor whitespace, and \<open>preprocess_text\<close> keeps it, because the class
  \<^verbatim>\<open>\w\<close> of the pattern contains it.
\<close>

theorem preprocess_text_keeps_underscore:
  "preprocess_text (Some ''a_b'') = ''a_b'' \<and> \<not> is_alnum CHR ''_'' \<and> \<not> is_space CHR ''_''"
  by code_simp

text \<open>
  Claim C2, amended: \<open>preprocess_text\<close> returns the empty string on \<^verbatim>\<open>None\<close> and on the
  empty string; on any other text it lower-cases every character, turns every
  character that is not a letter, a digit, an underscore or whitespace into a space,
  and returns the maximal runs of characters that are not whitespace, joined by single
  spaces: every run of whitespace inside has become one space and the whitespace at
  both ends is gone.
\<close>

theorem preprocess_text_normal_form:
  "preprocess_text None = [] \<and>
   preprocess_text (Some []) = [] \<and>
   preprocess_text (Some t) =
     join '' '' (runs (\<lambda>c. \<not> is_space c)
       (map (\<lambda>c. if is_alnum c \<or> c = CHR ''_'' \<or> is_space c then c else CHR '' '')
            (map lower_char t)))"
  by (simp add: preprocess_text_def strip_sub_spaces sub_non_word_def lower_def is_word_def)

section \<open>The ranking of \<open>find_similar_books\<close>\<close>

lemma weights [simp]: "CONTENT_WEIGHT = 0.6" "METADATA_WEIGHT = 0.4"
  by (simp_all add: CONTENT_WEIGHT_def METADATA_WEIGHT_def)

lemma similarities_loop_eq:
  "similarities_loop self t cs acc = acc @ scored self t cs"
  by (induction cs arbitrary: acc)
     (simp_all add: scored_def others_def combined_def Let_def mult.commute)

lemma find_similar_books_eq:
  "find_similar_books self t cs n = slice_to (sort_reverse snd (scored self t cs)) n"
  by (simp add: find_similar_books_def similarities_loop_eq)

lemma length_scored [simp]: "length (scored self t cs) = length (others t cs)"
  by (simp add: scored_def)

lemma length_others_le: "length (others t cs) \<le> length cs"
  by (simp add: others_def)

lemma length_sort_reverse [simp]: "length (sort_reverse f xs) = length xs"
  by (simp add: sort_reverse_def)

lemma mset_sort_reverse [simp]: "mset (sort_reverse f xs) = mset xs"
  by (simp add: sort_reverse_def)

lemma set_sort_reverse [simp]: "set (sort_reverse f xs) = set xs"
  by (simp add: sort_reverse_def)

lemma sorted_sort_reverse: "sorted_wrt (\<lambda>x y. f y \<le> f x) (sort_reverse f xs)"
proof -
  have "sorted (map (\<lambda>x. - f x) (sort_key (\<lambda>x. - f x) xs))" by (rule sorted_sort_key)
  then show ?thesis by (simp add: sort_reverse_def sorted_map)
qed

lemma sort_reverse_stable:
  "filter (\<lambda>x. f x = k) (sort_reverse f xs) = filter (\<lambda>x. f x = k) xs"
  using sort_key_stable [of "\<lambda>x. - f x" "- k" xs] by (simp add: sort_reverse_def)

lemma slice_to_all: "int (length xs) \<le> n \<Longrightarrow> slice_to xs n = xs"
  by (simp add: slice_to_def)

lemma slice_to_take: "\<exists>m. slice_to xs n = take m xs"
  by (auto simp: slice_to_def)

lemma find_similar_books_full:
  "find_similar_books self t cs (int (length cs)) = sort_reverse snd (scored self t cs)"
  using length_others_le [of t cs] by (simp add: find_similar_books_eq slice_to_all)

text \<open>
  Claim C3: for a count \<open>n \<ge> 0\<close>, \<open>find_similar_books\<close> returns the first \<open>n\<close> entries
  of the full ranking; the full ranking holds exactly the candidates whose id differs
  from the target's, each with the score \<open>0.6 * content + 0.4 * metadata\<close>; the result
  is sorted by descending score and its length is the minimum of \<open>n\<close> and the number of
  candidates whose id differs from the target's. A book without an id has the id
  \<open>None\<close>, so the statement needs no assumption on the ids.
\<close>

theorem find_similar_books_ranked:
  assumes "0 \<le> n"
  shows "find_similar_books self t cs n = take (nat n) (find_similar_books self t cs (int (length cs))) \<and>
         mset (find_similar_books self t cs (int (length cs))) =
           mset (map (\<lambda>c. (c, 0.6 * calculate_content_similarity self t c
                              + 0.4 * calculate_metadata_similarity t c))
                     (filter (\<lambda>c. book_id c \<noteq> book_id t) cs)) \<and>
         sorted_wrt (\<lambda>x y. snd y \<le> snd x) (find_similar_books self t cs n) \<and>
         length (find_similar_books self t cs n) =
           min (nat n) (length (filter (\<lambda>c. book_id c \<noteq> book_id t) cs))"
proof -
  have 1: "find_similar_books self t cs n = take (nat n) (sort_reverse snd (scored self t cs))"
    using assms by (simp add: find_similar_books_eq slice_to_def)
  have 2: "sorted_wrt (\<lambda>x y. snd y \<le> snd x) (take (nat n) (sort_reverse snd (scored self t cs)))"
    using sorted_sort_reverse [of snd "scored self t cs"] by (rule sorted_wrt_take)
  show ?thesis
    using 2 by (simp add: 1 find_similar_books_full) (simp add: scored_def others_def combined_def)
qed


theorem find_similar_books_ranked_witness:
  "(0::int) \<le> 1 \<and> length (find_similar_books demo_engine book1 [book1, book2] 1) = 1"
  using find_similar_books_ranked [of 1 demo_engine book1 "[book1, book2]"]
  by (simp add: book1_def book2_def)

lemma set_slice_to: "set (slice_to xs n) \<subseteq> set xs"
  by (auto simp: slice_to_def dest: in_set_takeD)

lemma others_idem: "others t (others t cs) = others t cs"
  by (simp add: others_def)

text \<open>
  Claim C4: no entry of the result of \<open>find_similar_books\<close> has the target's id,
  whatever the count is, and the candidates with the target's id play no part in the
  result: the loop skips them before it computes a similarity, so removing them from
  the candidate list beforehand gives the same result.
\<close>

theorem find_similar_books_excludes_target:
  "(\<forall>e\<in>set (find_similar_books self t cs n). book_id (fst e) \<noteq> book_id t) \<and>
   find_similar_books self t cs n =
     find_similar_books self t (filter (\<lambda>c. book_id c \<noteq> book_id t) cs) n"
proof -
  have "set (find_similar_books self t cs n) \<subseteq> set (scored self t cs)"
    using set_slice_to [of "sort_reverse snd (scored self t cs)" n]
    by (simp add: find_similar_books_eq)
  moreover have "\<forall>e\<in>set (scored self t cs). book_id (fst e) \<noteq> book_id t"
    by (auto simp: scored_def others_def)
  moreover have "scored self t (filter (\<lambda>c. book_id c \<noteq> book_id t) cs) = scored self t cs"
    using others_idem [of t cs] by (simp add: scored_def others_def)
  ultimately show ?thesis by (auto simp: find_similar_books_eq)
qed

lemma demo_ranking:
  "find_similar_books demo_engine book1 [book1, book2] 5 = [(book2, combined demo_engine book1 book2)]"
  by (simp add: find_similar_books_eq scored_def others_def book1_def book2_def
      sort_reverse_def slice_to_def)

theorem find_similar_books_excludes_target_witness:
  "find_similar_books demo_engine book1 [book1, book2] 5 \<noteq> [] \<and>
   book_id (fst (hd (find_similar_books demo_engine book1 [book1, book2] 5))) \<noteq> book_id book1"
proof -
  have ne: "find_similar_books demo_engine book1 [book1, book2] 5 \<noteq> []"
    by (simp add: demo_ranking)
  then have "hd (find_similar_books demo_engine book1 [book1, book2] 5)
      \<in> set (find_similar_books demo_engine book1 [book1, book2] 5)"
    by (rule hd_in_set)
  with ne find_similar_books_excludes_target [of demo_engine book1 "[book1, book2]" 5]
  show ?thesis by blast
qed

lemma prefix_filter_slice: "prefix (filter P (slice_to xs n)) (filter P xs)"
proof -
  obtain m where "slice_to xs n = take m xs" using slice_to_take by blast
  then show ?thesis by (simp add: filter_mono_prefix take_is_prefix)
qed

lemma find_similar_books_stable:
  "prefix (filter (\<lambda>e. snd e = k) (find_similar_books self t cs n))
          (filter (\<lambda>e. snd e = k) (scored self t cs))"
  using prefix_filter_slice [of "\<lambda>e. snd e = k" "sort_reverse snd (scored self t cs)" n]
  by (simp add: find_similar_books_eq sort_reverse_stable)

lemma slice_to_negative:
  "n < 0 \<Longrightarrow> slice_to xs n = rev (drop (nat (- n)) (rev xs))"
  by (simp add: slice_to_def rev_drop)

text \<open>
  Claim C10, amended: for a negative count \<open>n\<close>, \<open>find_similar_books\<close> returns the full
  ranking without its last \<open>|n|\<close> entries; the result is not empty exactly when more
  than \<open>|n|\<close> candidates differ from the target in their id; and its length is never
  the minimum of \<open>n\<close> and the number of those candidates.
\<close>

theorem find_similar_books_negative:
  assumes "n < 0"
  shows "find_similar_books self t cs n =
           rev (drop (nat (- n)) (rev (find_similar_books self t cs (int (length cs))))) \<and>
         (find_similar_books self t cs n \<noteq> [] \<longleftrightarrow>
            nat (- n) < length (filter (\<lambda>c. book_id c \<noteq> book_id t) cs)) \<and>
         int (length (find_similar_books self t cs n)) \<noteq>
           min n (int (length (filter (\<lambda>c. book_id c \<noteq> book_id t) cs)))"
proof -
  have 1: "find_similar_books self t cs n =
      rev (drop (nat (- n)) (rev (find_similar_books self t cs (int (length cs)))))"
    using assms
    by (simp only: find_similar_books_full) (simp add: find_similar_books_eq slice_to_negative)
  have 2: "length (find_similar_books self t cs n) = length (others t cs) - nat (- n)"
    by (simp add: 1 find_similar_books_full)
  have 3: "find_similar_books self t cs n \<noteq> [] \<longleftrightarrow> nat (- n) < length (others t cs)"
    using 2 by (metis length_greater_0_conv zero_less_diff)
  have 4: "int (length (find_similar_books self t cs n)) \<noteq> min n (int (length (others t cs)))"
    using assms by linarith
  from 1 3 4 show ?thesis by (simp add: others_def)
qed

text \<open>
  Claim C10, as stated, says that a negative count never gives an empty sequence. With
  one scored candidate and the count \<open>-1\<close> the result is empty.
\<close>

theorem find_similar_books_negative_empty:
  "find_similar_books demo_engine book1 [book1, book2] (- 1) = []"
  by (simp add: find_similar_books_eq scored_def others_def book1_def book2_def
      sort_reverse_def slice_to_def)

theorem find_similar_books_negative_witness:
  "(- 1 :: int) < 0 \<and>
   find_similar_books demo_engine book1 [book2, book2] (- 1) =
     [(book2, combined demo_engine book1 book2)]"
proof -
  have "find_similar_books demo_engine book1 [book2, book2] (int (length [book2, book2])) =
      [(book2, combined demo_engine book1 book2), (book2, combined demo_engine book1 book2)]"
    by (simp add: find_similar_books_eq scored_def others_def book1_def book2_def
        sort_reverse_def slice_to_def)
  then show ?thesis
    using find_similar_books_negative [of "- 1" demo_engine book1 "[book2, book2]"] by simp
qed

section \<open>The metadata similarity\<close>

lemma jaccard_range: "finite A \<Longrightarrow> finite B \<Longrightarrow> 0 \<le> jaccard A B \<and> jaccard A B \<le> 1"
proof -
  assume f: "finite A" "finite B"
  have "card (A \<inter> B) \<le> card (A \<union> B)" using f by (intro card_mono) auto
  then have "real (card (A \<inter> B)) \<le> real (card (A \<union> B))" by simp
  then show ?thesis
    unfolding jaccard_def by (cases "card (A \<union> B) = 0") (simp_all add: divide_le_eq_1)
qed

lemma rating_closeness_range:
  fixes r1 r2 :: real
  assumes "0 \<le> r1" "r1 \<le> 5" "0 \<le> r2" "r2 \<le> 5"
  shows "0 \<le> 1 - \<bar>r1 - r2\<bar> / 5 \<and> 1 - \<bar>r1 - r2\<bar> / 5 \<le> 1"
  using assms by auto

lemma length_closeness_range:
  fixes p1 p2 :: int
  assumes "0 < p1" "0 < p2"
  shows "0 \<le> 1 - real_of_int \<bar>p1 - p2\<bar> / real_of_int (max p1 p2) \<and>
         1 - real_of_int \<bar>p1 - p2\<bar> / real_of_int (max p1 p2) \<le> 1"
proof -
  have "\<bar>p1 - p2\<bar> \<le> max p1 p2" using assms by auto
  then have "real_of_int \<bar>p1 - p2\<bar> \<le> real_of_int (max p1 p2)" by (rule of_int_le_iff [THEN iffD2])
  moreover have "0 < real_of_int (max p1 p2)" using assms by simp
  ultimately have "real_of_int \<bar>p1 - p2\<bar> / real_of_int (max p1 p2) \<le> 1" by (simp add: divide_le_eq_1)
  moreover have "0 \<le> real_of_int \<bar>p1 - p2\<bar> / real_of_int (max p1 p2)"
    using \<open>0 < real_of_int (max p1 p2)\<close> by (intro divide_nonneg_pos) auto
  ultimately show ?thesis by simp
qed

lemma overlap_term:
  assumes "finite A" "finite B"
  shows "(if A \<noteq> {} \<and> B \<noteq> {}
          then w * real (card (A \<inter> B)) / real (max (card (A \<union> B)) 1) else 0) =
         (if A \<noteq> {} \<and> B \<noteq> {} then w * jaccard A B else 0)"
proof (cases "A \<noteq> {} \<and> B \<noteq> {}")
  case True
  then have "0 < card (A \<union> B)" using assms by (simp add: card_gt_0_iff)
  then have "max (card (A \<union> B)) 1 = card (A \<union> B)" by (simp add: max_def)
  then show ?thesis by (simp add: jaccard_def)
next
  case False
  then show ?thesis by auto
qed

lemma metadata_terms:
  "calculate_metadata_similarity a b =
     (if set (dict_get [] (categories a)) \<noteq> {} \<and> set (dict_get [] (categories b)) \<noteq> {}
      then 0.4 * real (card (set (dict_get [] (categories a)) \<inter> set (dict_get [] (categories b))))
           / real (max (card (set (dict_get [] (categories a)) \<union> set (dict_get [] (categories b)))) 1)
      else 0) +
     (if set (dict_get [] (authors a)) \<noteq> {} \<and> set (dict_get [] (authors b)) \<noteq> {}
      then 0.3 * real (card (set (dict_get [] (authors a)) \<inter> set (dict_get [] (authors b))))
           / real (max (card (set (dict_get [] (authors a)) \<union> set (dict_get [] (authors b)))) 1)
      else 0) +
     (if dict_get 0 (average_rating a) \<noteq> 0 \<and> dict_get 0 (average_rating b) \<noteq> 0
      then 0.2 * (1 - \<bar>dict_get 0 (average_rating a) - dict_get 0 (average_rating b)\<bar> / 5)
      else 0) +
     (if dict_get 0 (page_count a) \<noteq> 0 \<and> dict_get 0 (page_count b) \<noteq> 0
      then 0.1 * (1 - real_of_int \<bar>dict_get 0 (page_count a) - dict_get 0 (page_count b)\<bar>
                      / real_of_int (max (dict_get 0 (page_count a)) (dict_get 0 (page_count b))))
      else 0)"
  by (simp add: calculate_metadata_similarity_def Let_def)

lemma metadata_parts:
  "calculate_metadata_similarity a b =
     (if set (dict_get [] (categories a)) \<noteq> {} \<and> set (dict_get [] (categories b)) \<noteq> {}
      then 0.4 * jaccard (set (dict_get [] (categories a))) (set (dict_get [] (categories b)))
      else 0) +
     (if set (dict_get [] (authors a)) \<noteq> {} \<and> set (dict_get [] (authors b)) \<noteq> {}
      then 0.3 * jaccard (set (dict_get [] (authors a))) (set (dict_get [] (authors b)))
      else 0) +
     (if dict_get 0 (average_rating a) \<noteq> 0 \<and> dict_get 0 (average_rating b) \<noteq> 0
      then 0.2 * (1 - \<bar>dict_get 0 (average_rating a) - dict_get 0 (average_rating b)\<bar> / 5)
      else 0) +
     (if dict_get 0 (page_count a) \<noteq> 0 \<and> dict_get 0 (page_count b) \<noteq> 0
      then 0.1 * (1 - real_of_int \<bar>dict_get 0 (page_count a) - dict_get 0 (page_count b)\<bar>
                      / real_of_int (max (dict_get 0 (page_count a)) (dict_get 0 (page_count b))))
      else 0)"
  unfolding metadata_terms by (simp only: overlap_term [OF finite_set finite_set])

lemma in_domain_rating: "in_domain b \<Longrightarrow> 0 \<le> dict_get 0 (average_rating b) \<and> dict_get 0 (average_rating b) \<le> 5"
  by (auto simp: in_domain_def dict_get_def split: option.splits)

lemma in_domain_pages: "in_domain b \<Longrightarrow> 0 \<le> dict_get 0 (page_count b)"
  by (auto simp: in_domain_def dict_get_def split: option.splits)

text \<open>
  In exact arithmetic the metadata similarity of two books in the documented domains is
  the sum of the four sub-scores (the overlap of the categories weighted 0.4, the
  overlap of the authors weighted 0.3, the closeness of the ratings weighted 0.2, the
  closeness of the page counts weighted 0.1), a sub-score counting only when the field
  is non-empty or non-zero in both books, and the sum lies in \<open>[0, 1]\<close>.
\<close>

lemma metadata_similarity_range:
  assumes "in_domain a" "in_domain b"
  shows "calculate_metadata_similarity a b =
     (if set (dict_get [] (categories a)) \<noteq> {} \<and> set (dict_get [] (categories b)) \<noteq> {}
      then 0.4 * jaccard (set (dict_get [] (categories a))) (set (dict_get [] (categories b)))
      else 0) +
     (if set (dict_get [] (authors a)) \<noteq> {} \<and> set (dict_get [] (authors b)) \<noteq> {}
      then 0.3 * jaccard (set (dict_get [] (authors a))) (set (dict_get [] (authors b)))
      else 0) +
     (if dict_get 0 (average_rating a) \<noteq> 0 \<and> dict_get 0 (average_rating b) \<noteq> 0
      then 0.2 * (1 - \<bar>dict_get 0 (average_rating a) - dict_get 0 (average_rating b)\<bar> / 5)
      else 0) +
     (if dict_get 0 (page_count a) \<noteq> 0 \<and> dict_get 0 (page_count b) \<noteq> 0
      then 0.1 * (1 - real_of_int \<bar>dict_get 0 (page_count a) - dict_get 0 (page_count b)\<bar>
                      / real_of_int (max (dict_get 0 (page_count a)) (dict_get 0 (page_count b))))
      else 0) \<and>
     0 \<le> calculate_metadata_similarity a b \<and> calculate_metadata_similarity a b \<le> 1"
proof -
  define c where "c = (if set (dict_get [] (categories a)) \<noteq> {} \<and> set (dict_get [] (categories b)) \<noteq> {}
      then 0.4 * jaccard (set (dict_get [] (categories a))) (set (dict_get [] (categories b)))
      else 0)"
  define u where "u = (if set (dict_get [] (authors a)) \<noteq> {} \<and> set (dict_get [] (authors b)) \<noteq> {}
      then 0.3 * jaccard (set (dict_get [] (authors a))) (set (dict_get [] (authors b)))
      else 0)"
  define r where "r = (if dict_get 0 (average_rating a) \<noteq> 0 \<and> dict_get 0 (average_rating b) \<noteq> 0
      then 0.2 * (1 - \<bar>dict_get 0 (average_rating a) - dict_get 0 (average_rating b)\<bar> / 5)
      else 0)"
  define l where "l = (if dict_get 0 (page_count a) \<noteq> 0 \<and> dict_get 0 (page_count b) \<noteq> 0
      then 0.1 * (1 - real_of_int \<bar>dict_get 0 (page_count a) - dict_get 0 (page_count b)\<bar>
                      / real_of_int (max (dict_get 0 (page_count a)) (dict_get 0 (page_count b))))
      else 0)"
  have eq: "calculate_metadata_similarity a b = c + u + r + l"
    unfolding c_def u_def r_def l_def by (rule metadata_parts)
  have c: "0 \<le> c \<and> c \<le> 0.4"
    using jaccard_range [of "set (dict_get [] (categories a))" "set (dict_get [] (categories b))"]
    by (simp add: c_def)
  have u: "0 \<le> u \<and> u \<le> 0.3"
    using jaccard_range [of "set (dict_get [] (authors a))" "set (dict_get [] (authors b))"]
    by (simp add: u_def)
  have r: "0 \<le> r \<and> r \<le> 0.2"
    using in_domain_rating [OF assms(1)] in_domain_rating [OF assms(2)]
      rating_closeness_range [of "dict_get 0 (average_rating a)" "dict_get 0 (average_rating b)"]
    by (simp add: r_def)
  have l: "0 \<le> l \<and> l \<le> 0.1"
  proof (cases "dict_get 0 (page_count a) \<noteq> 0 \<and> dict_get 0 (page_count b) \<noteq> 0")
    case True
    then have "0 < dict_get 0 (page_count a)" "0 < dict_get 0 (page_count b)"
      using in_domain_pages [OF assms(1)] in_domain_pages [OF assms(2)] by auto
    define y where "y = 1 - real_of_int \<bar>dict_get 0 (page_count a) - dict_get 0 (page_count b)\<bar>
                      / real_of_int (max (dict_get 0 (page_count a)) (dict_get 0 (page_count b)))"
    have "0 \<le> y \<and> y \<le> 1" unfolding y_def by (rule length_closeness_range) fact+
    moreover have "l = 0.1 * y" using True by (simp add: l_def y_def)
    ultimately show ?thesis by simp
  next
    case False
    then show ?thesis by (auto simp: l_def)
  qed
  have "0 \<le> c + u + r + l \<and> c + u + r + l \<le> 1" using c u r l by linarith
  then show ?thesis using eq unfolding c_def u_def r_def l_def by simp
qed

lemma in_domain_demo: "in_domain book1 \<and> in_domain book2"
  by (simp add: in_domain_def book1_def book2_def)

lemma demo_metadata: "calculate_metadata_similarity book1 book2 = 1951 / 3000"
  by code_simp

lemma metadata_similarity_range_demo:
  "in_domain book1 \<and> in_domain book2 \<and>
   calculate_metadata_similarity book1 book2 = 1951 / 3000 \<and>
   0 \<le> calculate_metadata_similarity book1 book2 \<and>
   calculate_metadata_similarity book1 book2 \<le> 1"
  using metadata_similarity_range [of book1 book2] in_domain_demo demo_metadata by simp

lemma metadata_symmetric:
  "calculate_metadata_similarity a b = calculate_metadata_similarity b a"
  unfolding metadata_parts
  by (simp add: jaccard_def Int_commute Un_commute abs_minus_commute max.commute conj_commute
      del: set_empty Un_empty)

section \<open>The metadata similarity in double arithmetic\<close>

lemma round_even_cases: "round_even r = \<lfloor>r\<rfloor> \<or> round_even r = \<lfloor>r\<rfloor> + 1"
  by (simp add: round_even_def Let_def)

lemma round_even_of_int [simp]: "round_even (of_int n) = n"
  by (simp add: round_even_def)

lemma round_even_upper: "real_of_int (round_even r) \<le> r + 1 / 2"
  unfolding round_even_def Let_def by (auto; linarith)

lemma round_even_lower: "r - 1 / 2 \<le> real_of_int (round_even r)"
  unfolding round_even_def Let_def by (auto; linarith)

lemma round_even_mono: "r \<le> s \<Longrightarrow> round_even r \<le> round_even s"
proof -
  assume rs: "r \<le> s"
  then have fl: "\<lfloor>r\<rfloor> \<le> \<lfloor>s\<rfloor>" by (rule floor_mono)
  show ?thesis
  proof (cases "\<lfloor>r\<rfloor> = \<lfloor>s\<rfloor>")
    case True
    then have "r - of_int \<lfloor>r\<rfloor> \<le> s - of_int \<lfloor>s\<rfloor>" using rs by simp
    then show ?thesis unfolding round_even_def Let_def using True by auto
  next
    case False
    with fl have "\<lfloor>r\<rfloor> + 1 \<le> \<lfloor>s\<rfloor>" by simp
    moreover have "round_even r \<le> \<lfloor>r\<rfloor> + 1" using round_even_cases [of r] by auto
    moreover have "\<lfloor>s\<rfloor> \<le> round_even s" using round_even_cases [of s] by auto
    ultimately show ?thesis by linarith
  qed
qed

lemma round_even_uminus: "round_even (- r) = - round_even r"
proof (cases "r = of_int \<lfloor>r\<rfloor>")
  case True
  then obtain n where "r = of_int n" ..
  then have "- r = of_int (- n)" by simp
  then show ?thesis using \<open>r = of_int n\<close> by (simp only: round_even_of_int)
next
  case False
  then have fl: "\<lfloor>- r\<rfloor> = - \<lfloor>r\<rfloor> - 1"
    using ceiling_altdef [of r] by (simp add: ceiling_def)
  have d: "0 < r - of_int \<lfloor>r\<rfloor>" using False by (metis diff_gt_0_iff_gt of_int_floor_le order.not_eq_order_implies_strict)
  show ?thesis
    unfolding round_even_def Let_def fl using d by (auto; linarith?)
qed


lemma exponent_uminus [simp]: "exponent (- x) = exponent x"
  by (simp add: exponent_def)

lemma exponent_ge: "\<lfloor>log 2 \<bar>x\<bar>\<rfloor> \<le> exponent x" and exponent_min: "- 1022 \<le> exponent x"
  by (simp_all add: exponent_def)

lemma exponent_mono: "0 < x \<Longrightarrow> x \<le> y \<Longrightarrow> exponent x \<le> exponent y"
proof -
  assume "0 < x" "x \<le> y"
  then have "log 2 \<bar>x\<bar> \<le> log 2 \<bar>y\<bar>" by simp
  then have "\<lfloor>log 2 \<bar>x\<bar>\<rfloor> \<le> \<lfloor>log 2 \<bar>y\<bar>\<rfloor>" by (rule floor_mono)
  then show ?thesis by (simp add: exponent_def)
qed

lemma quantum_pos [simp]: "0 < quantum x"
  by (simp add: quantum_def)

lemma quantum_nonneg [simp]: "0 \<le> quantum x"
  by (simp add: quantum_def)

lemma quantum_nonzero [simp]: "quantum x \<noteq> 0"
  by (simp add: quantum_def)

lemma quantum_uminus [simp]: "quantum (- x) = quantum x"
  by (simp add: quantum_def)

lemma quantum_times: "quantum x * 2 ^ k = 2 powr (of_int (exponent x - 52) + real k)"
  by (simp only: quantum_def powr_add powr_realpow [of 2 k, simplified])

lemma quantum_step:
  assumes "exponent x + 1 \<le> exponent y"
  shows "quantum x * 2 \<le> quantum y"
proof -
  have "quantum x * 2 ^ 1 = 2 powr (of_int (exponent x - 52) + real 1)" by (rule quantum_times)
  also have "\<dots> \<le> 2 powr of_int (exponent y - 52)"
    using assms by (intro powr_mono) simp_all
  finally show ?thesis by (simp add: quantum_def)
qed

lemma below_next_binade: "0 < x \<Longrightarrow> x < quantum x * 2 ^ 53"
proof -
  assume x: "0 < x"
  have "log 2 x < of_int (\<lfloor>log 2 x\<rfloor> + 1)" by linarith
  also have "\<dots> \<le> of_int (exponent x + 1)" using exponent_ge [of x] x by simp
  also have "\<dots> = of_int (exponent x - 52) + real 53" by simp
  finally have "log 2 x < of_int (exponent x - 52) + real 53" .
  then have "x < 2 powr (of_int (exponent x - 52) + real 53)"
    using x by (simp only: log_less_iff)
  then show ?thesis by (simp only: quantum_times)
qed

lemma above_binade:
  "0 < x \<Longrightarrow> - 1022 < exponent x \<Longrightarrow> quantum x * 2 ^ 52 \<le> x"
proof -
  assume x: "0 < x" and e: "- 1022 < exponent x"
  then have "exponent x = \<lfloor>log 2 x\<rfloor>" by (simp add: exponent_def max_def split: if_splits)
  then have "of_int (exponent x) \<le> log 2 x" by simp
  moreover have "real_of_int (exponent x) = of_int (exponent x - 52) + real 52" by simp
  ultimately have "of_int (exponent x - 52) + real 52 \<le> log 2 x" by (simp only:)
  then have "2 powr (of_int (exponent x - 52) + real 52) \<le> x"
    using x by (simp only: le_log_iff)
  then show ?thesis by (simp only: quantum_times)
qed

lemma double_0 [simp]: "double 0 = 0"
  by (simp add: double_def)

lemma double_uminus: "double (- x) = - double x"
  by (simp add: double_def round_even_uminus)

lemma round_even_nonneg: "0 \<le> r \<Longrightarrow> 0 \<le> round_even r"
  using round_even_mono [of 0 r] round_even_of_int [of 0] by simp

lemma double_nonneg: "0 \<le> x \<Longrightarrow> 0 \<le> double x"
proof -
  assume "0 \<le> x"
  then have "0 \<le> x / quantum x" by simp
  then have "0 \<le> real_of_int (round_even (x / quantum x))"
    using round_even_nonneg [of "x / quantum x"] by simp
  then show ?thesis by (simp add: double_def)
qed

lemma round_even_le_power: "r \<le> 2 ^ k \<Longrightarrow> real_of_int (round_even r) \<le> 2 ^ k"
proof -
  assume "r \<le> 2 ^ k"
  then have "round_even r \<le> round_even (of_int (2 ^ k))"
    using round_even_mono [of r "of_int (2 ^ k)"] by simp
  then have "round_even r \<le> 2 ^ k" by (simp only: round_even_of_int)
  then have "real_of_int (round_even r) \<le> real_of_int (2 ^ k)" by (simp only: of_int_le_iff)
  then show ?thesis by simp
qed

lemma round_even_ge_power: "2 ^ k \<le> r \<Longrightarrow> 2 ^ k \<le> real_of_int (round_even r)"
proof -
  assume "2 ^ k \<le> r"
  then have "round_even (of_int (2 ^ k)) \<le> round_even r"
    using round_even_mono [of "of_int (2 ^ k)" r] by simp
  then have "2 ^ k \<le> round_even r" by (simp only: round_even_of_int)
  then have "real_of_int (2 ^ k) \<le> real_of_int (round_even r)" by (simp only: of_int_le_iff)
  then show ?thesis by simp
qed

lemma double_below_next_binade:
  assumes "0 < x"
  shows "double x \<le> quantum x * 2 ^ 53"
proof -
  have "x / quantum x \<le> 2 ^ 53"
    using below_next_binade [OF assms] by (simp add: pos_divide_le_eq mult.commute)
  then have "real_of_int (round_even (x / quantum x)) \<le> 2 ^ 53" by (rule round_even_le_power)
  then have "real_of_int (round_even (x / quantum x)) * quantum x \<le> 2 ^ 53 * quantum x"
    by (rule mult_right_mono) simp
  then show ?thesis using assms by (simp add: double_def mult.commute)
qed

lemma double_above_binade:
  assumes "0 < x" "- 1022 < exponent x"
  shows "quantum x * 2 ^ 52 \<le> double x"
proof -
  have "2 ^ 52 \<le> x / quantum x"
    using above_binade [OF assms] by (simp add: pos_le_divide_eq mult.commute)
  then have "2 ^ 52 \<le> real_of_int (round_even (x / quantum x))" by (rule round_even_ge_power)
  then have "2 ^ 52 * quantum x \<le> real_of_int (round_even (x / quantum x)) * quantum x"
    by (rule mult_right_mono) simp
  then show ?thesis using assms by (simp add: double_def mult.commute)
qed

lemma double_mono:
  assumes "0 \<le> x" "x \<le> y"
  shows "double x \<le> double y"
proof (cases "x = 0")
  case True
  then show ?thesis using assms double_nonneg [of y] by simp
next
  case False
  then have x: "0 < x" and y: "0 < y" using assms by auto
  have le: "exponent x \<le> exponent y" using x assms(2) by (rule exponent_mono)
  show ?thesis
  proof (cases "exponent x = exponent y")
    case True
    then have q: "quantum x = quantum y" by (simp add: quantum_def)
    have "x / quantum y \<le> y / quantum y" using assms(2) by (simp add: divide_right_mono)
    then have "round_even (x / quantum y) \<le> round_even (y / quantum y)" by (rule round_even_mono)
    then have "real_of_int (round_even (x / quantum y)) * quantum y
        \<le> real_of_int (round_even (y / quantum y)) * quantum y"
      by (intro mult_right_mono) simp_all
    then show ?thesis using x y q by (simp add: double_def)
  next
    case False
    with le have lt: "exponent x + 1 \<le> exponent y" by simp
    then have "- 1022 < exponent y" using exponent_min [of x] by linarith
    from double_above_binade [OF y this] have "quantum y * 2 ^ 52 \<le> double y" .
    moreover have "quantum x * 2 ^ 53 \<le> quantum y * 2 ^ 52"
      using quantum_step [OF lt] by simp
    moreover note double_below_next_binade [OF x]
    ultimately show ?thesis by linarith
  qed
qed

lemma double_abs: "\<bar>double x\<bar> = double \<bar>x\<bar>"
proof (cases "0 \<le> x")
  case True
  then show ?thesis using double_nonneg [of x] by simp
next
  case False
  then have "0 \<le> - x" by simp
  from double_nonneg [OF this] False show ?thesis by (simp add: double_uminus)
qed

lemma double_relative:
  assumes "1 / 4 \<le> x"
  shows "double x \<le> x * (1 + 1 / 2 ^ 53)"
proof -
  have x: "0 < x" using assms by simp
  have "- 2 \<le> \<lfloor>log 2 x\<rfloor>"
  proof -
    have "2 powr (- 2) = (1 / 4 :: real)"
      using powr_realpow [of 2 2] by (simp add: powr_minus_divide)
    then have "2 powr real_of_int (- 2) \<le> x" using assms by simp
    then have "real_of_int (- 2) \<le> log 2 x" using x by (simp only: le_log_iff)
    then show ?thesis by (simp only: le_floor_iff)
  qed
  moreover have "\<lfloor>log 2 x\<rfloor> \<le> exponent x" using exponent_ge [of x] x by simp
  ultimately have "- 1022 < exponent x" by linarith
  from above_binade [OF x this] have "quantum x * 2 ^ 52 \<le> x" .
  then have q: "quantum x / 2 \<le> x / 2 ^ 53" by simp
  have "real_of_int (round_even (x / quantum x)) * quantum x \<le> (x / quantum x + 1 / 2) * quantum x"
    using round_even_upper [of "x / quantum x"] by (intro mult_right_mono) simp_all
  also have "\<dots> = x + quantum x / 2" by (simp add: distrib_right)
  also have "\<dots> \<le> x + x / 2 ^ 53" using q by simp
  finally show ?thesis using x by (simp add: double_def distrib_left)
qed

lemma double_eval:
  assumes "0 < x" "n \<le> 1074" "2 ^ 52 \<le> x * 2 ^ n" "x * 2 ^ n < 2 ^ 53"
  shows "double x = real_of_int (round_even (x * 2 ^ n)) / 2 ^ n"
proof -
  have p: "2 powr real_of_int (52 - int n) = 2 ^ 52 / 2 ^ n"
    using powr_realpow [of 2 52] powr_realpow [of 2 n] by (simp add: powr_diff)
  have p1: "2 powr (real_of_int (52 - int n) + 1) = 2 ^ 53 / 2 ^ n"
    by (simp only: powr_add p) simp
  have "2 powr real_of_int (52 - int n) \<le> x \<and> x < 2 powr (real_of_int (52 - int n) + 1)"
    using assms(3,4) by (simp only: p p1) (simp add: pos_divide_le_eq pos_less_divide_eq)
  then have "\<lfloor>log 2 x\<rfloor> = 52 - int n"
    using assms(1) floor_log_eq_powr_iff [of x 2 "52 - int n"] by simp
  then have e: "exponent x = 52 - int n" using assms(1,2) by (simp add: exponent_def)
  have q: "quantum x = 1 / 2 ^ n"
    using powr_realpow [of 2 n] by (simp add: quantum_def e powr_minus inverse_eq_divide)
  show ?thesis using assms(1) by (simp add: double_def q)
qed

lemma double_step:
  "0 \<le> s \<Longrightarrow> s \<le> S \<Longrightarrow> 0 \<le> t \<Longrightarrow> t \<le> T \<Longrightarrow>
   0 \<le> double (s + t) \<and> double (s + t) \<le> double (S + T)"
  by (simp add: double_nonneg double_mono)

lemma round_even_numeral [simp]: "round_even (numeral n) = numeral n"
  using round_even_of_int [of "numeral n"] by simp

lemma double_1 [simp]: "double 1 = 1"
  using double_eval [of 1 52] by simp

lemma double_5 [simp]: "double 5 = 5"
  using double_eval [of 5 50] by simp

lemma double_04: "double 0.4 = 3602879701896397 / 2 ^ 53"
  using double_eval [of "0.4" 54] by (simp add: round_even_def Let_def)

lemma double_03: "double 0.3 = 5404319552844595 / 2 ^ 54"
  using double_eval [of "0.3" 54] by (simp add: round_even_def Let_def)

lemma double_02: "double 0.2 = 3602879701896397 / 2 ^ 54"
  using double_eval [of "0.2" 55] by (simp add: round_even_def Let_def)

lemma double_01: "double 0.1 = 3602879701896397 / 2 ^ 55"
  using double_eval [of "0.1" 56] by (simp add: round_even_def Let_def)

lemma double_02_fixed: "double (3602879701896397 / 2 ^ 54) = 3602879701896397 / 2 ^ 54"
  using double_eval [of "3602879701896397 / 2 ^ 54" 55] by simp

lemma double_01_fixed: "double (3602879701896397 / 2 ^ 55) = 3602879701896397 / 2 ^ 55"
  using double_eval [of "3602879701896397 / 2 ^ 55" 56] by simp

lemma bound_04: "double (3602879701896397 / 2 ^ 53 * (1 + 1 / 2 ^ 53)) = 7205759403792795 / 2 ^ 54"
  using double_eval [of "3602879701896397 / 2 ^ 53 * (1 + 1 / 2 ^ 53)" 54]
  by (simp add: round_even_def Let_def)

lemma bound_03: "double (5404319552844595 / 2 ^ 54 * (1 + 1 / 2 ^ 53)) = 5404319552844596 / 2 ^ 54"
  using double_eval [of "5404319552844595 / 2 ^ 54 * (1 + 1 / 2 ^ 53)" 54]
  by (simp add: round_even_def Let_def)

lemma sum_1: "double (0 + 7205759403792795 / 2 ^ 54) = 7205759403792795 / 2 ^ 54"
  using double_eval [of "7205759403792795 / 2 ^ 54" 54] by simp

lemma sum_2: "double (7205759403792795 / 2 ^ 54 + 5404319552844596 / 2 ^ 54) = 6305039478318696 / 2 ^ 53"
  using double_eval [of "7205759403792795 / 2 ^ 54 + 5404319552844596 / 2 ^ 54" 53]
  by (simp add: round_even_def Let_def)

lemma sum_3: "double (6305039478318696 / 2 ^ 53 + 3602879701896397 / 2 ^ 54) = 8106479329266894 / 2 ^ 53"
  using double_eval [of "6305039478318696 / 2 ^ 53 + 3602879701896397 / 2 ^ 54" 53]
  by (simp add: round_even_def Let_def)

lemma sum_4: "double (8106479329266894 / 2 ^ 53 + 3602879701896397 / 2 ^ 55) = 1 + 1 / 2 ^ 52"
  using double_eval [of "8106479329266894 / 2 ^ 53 + 3602879701896397 / 2 ^ 55" 52]
  by (simp add: round_even_def Let_def)


lemma overlap_bound:
  assumes "finite A" "finite B" "1 / 4 \<le> w"
  shows "0 \<le> double (double (w * real (card (A \<inter> B))) / real (max (card (A \<union> B)) 1)) \<and>
         double (double (w * real (card (A \<inter> B))) / real (max (card (A \<union> B)) 1))
           \<le> double (w * (1 + 1 / 2 ^ 53))"
proof -
  define k where "k = card (A \<inter> B)"
  define m where "m = max (card (A \<union> B)) 1"
  define y where "y = double (w * real k)"
  have km: "k \<le> m" and m: "1 \<le> m"
    using assms(1,2) by (auto simp: k_def m_def intro: le_max_iff_disj [THEN iffD2] card_mono)
  have w: "0 \<le> w" using assms(3) by simp
  have y0: "0 \<le> y" unfolding y_def using w by (intro double_nonneg) simp
  have y1: "y \<le> w * real k * (1 + 1 / 2 ^ 53)"
  proof (cases "k = 0")
    case True
    then show ?thesis by (simp add: y_def)
  next
    case False
    then have "1 \<le> real k" by simp
    then have "w * 1 \<le> w * real k" using w by (intro mult_left_mono) simp_all
    then have "w \<le> w * real k" by (simp only: mult_1_right)
    then have "1 / 4 \<le> w * real k" using assms(3) by linarith
    then show ?thesis unfolding y_def by (rule double_relative)
  qed
  have "y / real m \<le> w * (1 + 1 / 2 ^ 53)"
  proof -
    have "y / real m \<le> w * real k * (1 + 1 / 2 ^ 53) / real m"
      using y1 m by (intro divide_right_mono) simp_all
    also have "\<dots> = (w * (1 + 1 / 2 ^ 53)) * (real k / real m)" by simp
    also have "\<dots> \<le> (w * (1 + 1 / 2 ^ 53)) * 1"
      using km m w by (intro mult_left_mono) (simp_all add: divide_le_eq_1)
    finally show ?thesis by simp
  qed
  moreover have "0 \<le> y / real m" using y0 by simp
  ultimately show ?thesis
    unfolding y_def k_def m_def by (simp add: double_nonneg double_mono)
qed

lemma closeness_bound:
  assumes "0 \<le> x" "x \<le> 1" "0 \<le> w"
  shows "0 \<le> double (w * double (1 - double x)) \<and> double (w * double (1 - double x)) \<le> double w"
proof -
  have x0: "0 \<le> double x" using assms(1) by (rule double_nonneg)
  have x1: "double x \<le> 1" using double_mono [OF assms(1,2)] by simp
  have c0: "0 \<le> double (1 - double x)" using x1 by (intro double_nonneg) simp
  have c1: "double (1 - double x) \<le> 1"
    using double_mono [of "1 - double x" 1] x0 x1 by simp
  have "w * double (1 - double x) \<le> w * 1" using c1 assms(3) by (intro mult_left_mono)
  moreover have "0 \<le> w * double (1 - double x)" using c0 assms(3) by simp
  ultimately show ?thesis by (simp add: double_nonneg double_mono)
qed

lemma add_term_bound:
  assumes "0 \<le> s" "s \<le> S" "present \<Longrightarrow> 0 \<le> t \<and> t \<le> T" "0 \<le> T"
    and "S \<le> double (S + T)"
  shows "0 \<le> add_term present s t \<and> add_term present s t \<le> double (S + T)"
proof (cases present)
  case True
  with assms(3) have "0 \<le> t" "t \<le> T" by auto
  with double_step [OF assms(1,2) this] True show ?thesis by (simp add: add_term_def)
next
  case False
  with assms(1,2,5) show ?thesis by (simp add: add_term_def)
qed

lemma metadata_double_terms:
  "calculate_metadata_similarity_double a b =
     add_term (dict_get 0 (page_count a) \<noteq> 0 \<and> dict_get 0 (page_count b) \<noteq> 0)
       (add_term (dict_get 0 (average_rating a) \<noteq> 0 \<and> dict_get 0 (average_rating b) \<noteq> 0)
         (add_term (set (dict_get [] (authors a)) \<noteq> {} \<and> set (dict_get [] (authors b)) \<noteq> {})
           (add_term (set (dict_get [] (categories a)) \<noteq> {} \<and> set (dict_get [] (categories b)) \<noteq> {})
              0
              (double (double (double 0.4 *
                 real (card (set (dict_get [] (categories a)) \<inter> set (dict_get [] (categories b)))))
               / real (max (card (set (dict_get [] (categories a)) \<union> set (dict_get [] (categories b)))) 1))))
           (double (double (double 0.3 *
              real (card (set (dict_get [] (authors a)) \<inter> set (dict_get [] (authors b)))))
            / real (max (card (set (dict_get [] (authors a)) \<union> set (dict_get [] (authors b)))) 1))))
         (double (double 0.2 * double (1 - double
            (\<bar>double (dict_get 0 (average_rating a) - dict_get 0 (average_rating b))\<bar> / 5)))))
       (double (double 0.1 * double (1 - double
          (real_of_int \<bar>dict_get 0 (page_count a) - dict_get 0 (page_count b)\<bar>
           / real_of_int (max (dict_get 0 (page_count a)) (dict_get 0 (page_count b)))))))"
  by (simp add: calculate_metadata_similarity_double_def Let_def add_term_def)

lemma metadata_double_range:
  assumes "in_domain a" "in_domain b"
  shows "0 \<le> calculate_metadata_similarity_double a b \<and>
         calculate_metadata_similarity_double a b \<le> 1 + 1 / 2 ^ 52"
proof -
  define c1 where "c1 \<longleftrightarrow> set (dict_get [] (categories a)) \<noteq> {} \<and> set (dict_get [] (categories b)) \<noteq> {}"
  define c2 where "c2 \<longleftrightarrow> set (dict_get [] (authors a)) \<noteq> {} \<and> set (dict_get [] (authors b)) \<noteq> {}"
  define c3 where "c3 \<longleftrightarrow> dict_get 0 (average_rating a) \<noteq> 0 \<and> dict_get 0 (average_rating b) \<noteq> 0"
  define c4 where "c4 \<longleftrightarrow> dict_get 0 (page_count a) \<noteq> 0 \<and> dict_get 0 (page_count b) \<noteq> 0"
  define t1 where "t1 = double (double (double 0.4 *
                 real (card (set (dict_get [] (categories a)) \<inter> set (dict_get [] (categories b)))))
               / real (max (card (set (dict_get [] (categories a)) \<union> set (dict_get [] (categories b)))) 1))"
  define t2 where "t2 = double (double (double 0.3 *
              real (card (set (dict_get [] (authors a)) \<inter> set (dict_get [] (authors b)))))
            / real (max (card (set (dict_get [] (authors a)) \<union> set (dict_get [] (authors b)))) 1))"
  define t3 where "t3 = double (double 0.2 * double (1 - double
            (\<bar>double (dict_get 0 (average_rating a) - dict_get 0 (average_rating b))\<bar> / 5)))"
  define t4 where "t4 = double (double 0.1 * double (1 - double
          (real_of_int \<bar>dict_get 0 (page_count a) - dict_get 0 (page_count b)\<bar>
           / real_of_int (max (dict_get 0 (page_count a)) (dict_get 0 (page_count b))))))"
  have eq: "calculate_metadata_similarity_double a b =
      add_term c4 (add_term c3 (add_term c2 (add_term c1 0 t1) t2) t3) t4"
    unfolding c1_def c2_def c3_def c4_def t1_def t2_def t3_def t4_def
    by (rule metadata_double_terms)
  have b1: "0 \<le> t1 \<and> t1 \<le> 7205759403792795 / 2 ^ 54"
    using overlap_bound [of "set (dict_get [] (categories a))" "set (dict_get [] (categories b))"
        "3602879701896397 / 2 ^ 53"]
    unfolding t1_def double_04 bound_04 by simp
  have b2: "0 \<le> t2 \<and> t2 \<le> 5404319552844596 / 2 ^ 54"
    using overlap_bound [of "set (dict_get [] (authors a))" "set (dict_get [] (authors b))"
        "5404319552844595 / 2 ^ 54"]
    unfolding t2_def double_03 bound_03 by simp
  have b3: "0 \<le> t3 \<and> t3 \<le> 3602879701896397 / 2 ^ 54"
  proof -
    let ?d = "dict_get 0 (average_rating a) - dict_get 0 (average_rating b)"
    have "\<bar>?d\<bar> \<le> 5"
      using in_domain_rating [OF assms(1)] in_domain_rating [OF assms(2)] by auto
    then have "double \<bar>?d\<bar> \<le> double 5" by (intro double_mono) simp_all
    then have "\<bar>double ?d\<bar> / 5 \<le> 1" by (simp add: double_abs)
    moreover have "0 \<le> \<bar>double ?d\<bar> / 5" by simp
    ultimately show ?thesis
      using closeness_bound [of "\<bar>double ?d\<bar> / 5" "3602879701896397 / 2 ^ 54"]
      unfolding t3_def double_02 double_02_fixed by simp
  qed
  have b4: "c4 \<Longrightarrow> 0 \<le> t4 \<and> t4 \<le> 3602879701896397 / 2 ^ 55"
  proof -
    assume c4
    let ?p = "dict_get 0 (page_count a)" and ?q = "dict_get 0 (page_count b)"
    have p: "0 < ?p" "0 < ?q"
      using \<open>c4\<close> in_domain_pages [OF assms(1)] in_domain_pages [OF assms(2)]
      by (auto simp: c4_def)
    from length_closeness_range [OF this]
    have "0 \<le> real_of_int \<bar>?p - ?q\<bar> / real_of_int (max ?p ?q) \<and>
          real_of_int \<bar>?p - ?q\<bar> / real_of_int (max ?p ?q) \<le> 1" by simp
    then show ?thesis
      using closeness_bound [of "real_of_int \<bar>?p - ?q\<bar> / real_of_int (max ?p ?q)"
          "3602879701896397 / 2 ^ 55"]
      unfolding t4_def double_01 double_01_fixed by simp
  qed
  have s1: "0 \<le> add_term c1 0 t1 \<and> add_term c1 0 t1 \<le> 7205759403792795 / 2 ^ 54"
    using add_term_bound [of 0 0 c1 t1 "7205759403792795 / 2 ^ 54"] b1
    unfolding sum_1 by simp
  have s2: "0 \<le> add_term c2 (add_term c1 0 t1) t2 \<and>
            add_term c2 (add_term c1 0 t1) t2 \<le> 6305039478318696 / 2 ^ 53"
    using add_term_bound [of "add_term c1 0 t1" "7205759403792795 / 2 ^ 54" c2 t2
        "5404319552844596 / 2 ^ 54"] s1 b2
    unfolding sum_2 by simp
  have s3: "0 \<le> add_term c3 (add_term c2 (add_term c1 0 t1) t2) t3 \<and>
            add_term c3 (add_term c2 (add_term c1 0 t1) t2) t3 \<le> 8106479329266894 / 2 ^ 53"
    using add_term_bound [of "add_term c2 (add_term c1 0 t1) t2" "6305039478318696 / 2 ^ 53" c3 t3
        "3602879701896397 / 2 ^ 54"] s2 b3
    unfolding sum_3 by simp
  have s4: "0 \<le> add_term c4 (add_term c3 (add_term c2 (add_term c1 0 t1) t2) t3) t4 \<and>
            add_term c4 (add_term c3 (add_term c2 (add_term c1 0 t1) t2) t3) t4 \<le> 1 + 1 / 2 ^ 52"
    using add_term_bound [of "add_term c3 (add_term c2 (add_term c1 0 t1) t2) t3"
        "8106479329266894 / 2 ^ 53" c4 t4 "3602879701896397 / 2 ^ 55"] s3 b4
    unfolding sum_4 by simp
  show ?thesis unfolding eq by (rule s4)
qed


lemma shared3_fields:
  "dict_get [] (categories (shared3 i)) = [''Fantasy'', ''Adventure'', ''Epic'']"
  "dict_get [] (authors (shared3 i)) = [''Tolkien'']"
  "dict_get 0 (average_rating (shared3 i)) = 4.5"
  "dict_get 0 (page_count (shared3 i)) = 300"
  by (simp_all add: shared3_def dict_get_def)

lemma shared3_cards:
  "card (set [''Fantasy'', ''Adventure'', ''Epic''] \<inter> set [''Fantasy'', ''Adventure'', ''Epic'']) = 3"
  "max (card (set [''Fantasy'', ''Adventure'', ''Epic''] \<union> set [''Fantasy'', ''Adventure'', ''Epic''])) 1 = 3"
  "card (set [''Tolkien''] \<inter> set [''Tolkien'']) = 1"
  "max (card (set [''Tolkien''] \<union> set [''Tolkien''])) 1 = 1"
  by simp_all

lemma shared3_present:
  "(set [''Fantasy'', ''Adventure'', ''Epic''] \<noteq> {} \<and> set [''Fantasy'', ''Adventure'', ''Epic''] \<noteq> {}) = True"
  "(set [''Tolkien''] \<noteq> {} \<and> set [''Tolkien''] \<noteq> {}) = True"
  "((4.5 :: real) \<noteq> 0 \<and> (4.5 :: real) \<noteq> 0) = True"
  "((300 :: int) \<noteq> 0 \<and> (300 :: int) \<noteq> 0) = True"
  by simp_all

lemma shared3_in_domain: "in_domain (shared3 i)"
  by (simp add: in_domain_def shared3_def)

lemma shared3_value:
  "calculate_metadata_similarity_double (shared3 i) (shared3 j) = 1 + 1 / 2 ^ 52"
proof -
  have a1: "double (3602879701896397 / 2 ^ 53 * 3) = 5404319552844596 / 2 ^ 52"
    using double_eval [of "3602879701896397 / 2 ^ 53 * 3" 52] by (simp add: round_even_def Let_def)
  have a2: "double (5404319552844596 / 2 ^ 52 / 3) = 7205759403792795 / 2 ^ 54"
    using double_eval [of "5404319552844596 / 2 ^ 52 / 3" 54] by (simp add: round_even_def Let_def)
  have t1: "double (double (double 0.4 * real 3) / real 3) = 7205759403792795 / 2 ^ 54"
    unfolding double_04 of_nat_numeral a1 a2 by (rule refl)
  have a3: "double (5404319552844595 / 2 ^ 54) = 5404319552844595 / 2 ^ 54"
    using double_eval [of "5404319552844595 / 2 ^ 54" 54] by simp
  have t2: "double (double (double 0.3 * real 1) / real 1) = 5404319552844595 / 2 ^ 54"
    unfolding double_03 of_nat_1 mult_1_right div_by_1 a3 by (rule refl)
  have t3: "double (double 0.2 * double (1 - double (\<bar>double (4.5 - 4.5)\<bar> / 5))) = 3602879701896397 / 2 ^ 54"
    unfolding cancel_comm_monoid_add_class.diff_cancel double_0 abs_zero div_0
      diff_zero double_1 mult_1_right double_02 double_02_fixed
    by (rule refl)
  have t4: "double (double 0.1 * double (1 - double (real_of_int \<bar>300 - 300\<bar> / real_of_int (max 300 300))))
      = 3602879701896397 / 2 ^ 55"
    unfolding cancel_comm_monoid_add_class.diff_cancel abs_zero of_int_0 double_0 div_0
      diff_zero double_1 mult_1_right double_01 double_01_fixed
    by (rule refl)
  have s2: "double (7205759403792795 / 2 ^ 54 + 5404319552844595 / 2 ^ 54) = 6305039478318695 / 2 ^ 53"
    using double_eval [of "7205759403792795 / 2 ^ 54 + 5404319552844595 / 2 ^ 54" 53]
    by (simp add: round_even_def Let_def)
  have s3: "double (6305039478318695 / 2 ^ 53 + 3602879701896397 / 2 ^ 54) = 8106479329266894 / 2 ^ 53"
    using double_eval [of "6305039478318695 / 2 ^ 53 + 3602879701896397 / 2 ^ 54" 53]
    by (simp add: round_even_def Let_def)
  have "calculate_metadata_similarity_double (shared3 i) (shared3 j) =
      double (double (double (double (0 + 7205759403792795 / 2 ^ 54) + 5404319552844595 / 2 ^ 54)
        + 3602879701896397 / 2 ^ 54) + 3602879701896397 / 2 ^ 55)"
    unfolding metadata_double_terms shared3_fields shared3_cards shared3_present
      t1 t2 t3 t4 add_term_def if_True
    by (rule refl)
  also have "\<dots> = 1 + 1 / 2 ^ 52"
    unfolding sum_1 s2 s3 sum_4 ..
  finally show ?thesis .
qed


lemma max_card_union:
  "set xs \<noteq> {} \<Longrightarrow> max (card (set xs \<union> set ys)) 1 = card (set xs \<union> set ys)"
proof -
  assume "set xs \<noteq> {}"
  then have "set xs \<union> set ys \<noteq> {}" by blast
  then have "0 < card (set xs \<union> set ys)" by (simp only: card_gt_0_iff) simp
  then show ?thesis by (simp add: max_def)
qed

lemma metadata_double_sum:
  "calculate_metadata_similarity_double a b =
     foldl (\<lambda>score t. double (score + t)) 0
       ((if set (dict_get [] (categories a)) \<noteq> {} \<and> set (dict_get [] (categories b)) \<noteq> {}
         then [overlap_double 0.4 (set (dict_get [] (categories a))) (set (dict_get [] (categories b)))]
         else []) @
        (if set (dict_get [] (authors a)) \<noteq> {} \<and> set (dict_get [] (authors b)) \<noteq> {}
         then [overlap_double 0.3 (set (dict_get [] (authors a))) (set (dict_get [] (authors b)))]
         else []) @
        (if dict_get 0 (average_rating a) \<noteq> 0 \<and> dict_get 0 (average_rating b) \<noteq> 0
         then [closeness_double 0.2
                 (\<bar>double (dict_get 0 (average_rating a) - dict_get 0 (average_rating b))\<bar> / 5)]
         else []) @
        (if dict_get 0 (page_count a) \<noteq> 0 \<and> dict_get 0 (page_count b) \<noteq> 0
         then [closeness_double 0.1
                 (real_of_int \<bar>dict_get 0 (page_count a) - dict_get 0 (page_count b)\<bar>
                  / real_of_int (max (dict_get 0 (page_count a)) (dict_get 0 (page_count b))))]
         else []))"
proof -
  have 1: "add_term (set xs \<noteq> {} \<and> set ys \<noteq> {}) s
             (double (double (double w * real (card (set xs \<inter> set ys)))
                      / real (max (card (set xs \<union> set ys)) 1))) =
           foldl (\<lambda>score t. double (score + t)) s
             (if set xs \<noteq> {} \<and> set ys \<noteq> {} then [overlap_double w (set xs) (set ys)] else [])"
    for xs ys :: "string list" and s w
  proof (cases "set xs \<noteq> {} \<and> set ys \<noteq> {}")
    case True
    then have "max (card (set xs \<union> set ys)) 1 = card (set xs \<union> set ys)"
      by (intro max_card_union) simp
    with True show ?thesis by (simp add: add_term_def overlap_double_def)
  next
    case False
    then show ?thesis by (simp only: add_term_def if_False foldl.simps)
  qed
  have 2: "add_term c s (double (double w * double (1 - double x))) =
           foldl (\<lambda>score t. double (score + t)) s (if c then [closeness_double w x] else [])"
    for c s w x
    by (cases c) (simp_all only: add_term_def closeness_double_def if_True if_False foldl.simps)
  show ?thesis
    unfolding metadata_double_terms 1 2 by (simp only: foldl_append [symmetric] append_assoc)
qed

text \<open>
  Claim C5, amended: for two books in the documented domains the double that
  \<open>calculate_metadata_similarity\<close> returns is the sum, added in double arithmetic in the
  order categories, authors, ratings, page counts, of the sub-scores of the fields that
  are non-empty or non-zero in both books (an absent field adds nothing), and it lies
  between \<open>0\<close> and \<open>1 + 1 / 2 ^ 52\<close>, one unit in the last place above \<open>1\<close>.
\<close>

theorem metadata_similarity_double_range:
  assumes "in_domain a" and "in_domain b"
  shows "calculate_metadata_similarity_double a b =
     foldl (\<lambda>score t. double (score + t)) 0
       ((if set (dict_get [] (categories a)) \<noteq> {} \<and> set (dict_get [] (categories b)) \<noteq> {}
         then [overlap_double 0.4 (set (dict_get [] (categories a))) (set (dict_get [] (categories b)))]
         else []) @
        (if set (dict_get [] (authors a)) \<noteq> {} \<and> set (dict_get [] (authors b)) \<noteq> {}
         then [overlap_double 0.3 (set (dict_get [] (authors a))) (set (dict_get [] (authors b)))]
         else []) @
        (if dict_get 0 (average_rating a) \<noteq> 0 \<and> dict_get 0 (average_rating b) \<noteq> 0
         then [closeness_double 0.2
                 (\<bar>double (dict_get 0 (average_rating a) - dict_get 0 (average_rating b))\<bar> / 5)]
         else []) @
        (if dict_get 0 (page_count a) \<noteq> 0 \<and> dict_get 0 (page_count b) \<noteq> 0
         then [closeness_double 0.1
                 (real_of_int \<bar>dict_get 0 (page_count a) - dict_get 0 (page_count b)\<bar>
                  / real_of_int (max (dict_get 0 (page_count a)) (dict_get 0 (page_count b))))]
         else [])) \<and>
     0 \<le> calculate_metadata_similarity_double a b \<and>
     calculate_metadata_similarity_double a b \<le> 1 + 1 / 2 ^ 52"
  using metadata_double_sum [of a b] metadata_double_range [OF assms] by (simp only:)

lemma rated_double_value:
  "calculate_metadata_similarity_double (rated i 4) (rated j 4) = 3602879701896397 / 2 ^ 54"
proof -
  have f: "dict_get [] (categories (rated i 4)) = []" "dict_get [] (authors (rated i 4)) = []"
    "dict_get 0 (average_rating (rated i 4)) = 4" "dict_get 0 (page_count (rated i 4)) = 0" for i
    by (simp_all add: rated_def dict_get_def)
  have c: "(set ([] :: string list) \<noteq> {} \<and> set ([] :: string list) \<noteq> {}) = False"
    "((4 :: real) \<noteq> 0 \<and> (4 :: real) \<noteq> 0) = True" "((0 :: int) \<noteq> 0 \<and> (0 :: int) \<noteq> 0) = False"
    by simp_all
  have t: "double (double 0.2 * double (1 - double (\<bar>double (4 - 4)\<bar> / 5))) = 3602879701896397 / 2 ^ 54"
    unfolding cancel_comm_monoid_add_class.diff_cancel double_0 abs_zero div_0
      diff_zero double_1 mult_1_right double_02 double_02_fixed
    by (rule refl)
  show ?thesis
    unfolding metadata_double_terms f c add_term_def if_True if_False t add_0_left double_02_fixed
    by (rule refl)
qed

theorem metadata_similarity_double_range_witness:
  "in_domain (rated None 4) \<and> in_domain (rated (Some ''1'') 4) \<and>
   calculate_metadata_similarity_double (rated None 4) (rated (Some ''1'') 4)
     = 3602879701896397 / 2 ^ 54 \<and>
   0 \<le> calculate_metadata_similarity_double (rated None 4) (rated (Some ''1'') 4) \<and>
   calculate_metadata_similarity_double (rated None 4) (rated (Some ''1'') 4) \<le> 1 + 1 / 2 ^ 52"
proof -
  have d: "in_domain (rated i 4)" for i by (simp add: in_domain_def rated_def)
  from metadata_similarity_double_range [OF d d, of None "Some ''1''"] d rated_double_value
  show ?thesis by (simp only:) simp
qed

text \<open>
  Claim C5, as stated, bounds the result by \<open>1\<close>. For two books that share three
  categories, the author, the rating 4.5 and 300 pages the rounded sum is
  \<open>1 + 1 / 2 ^ 52\<close>, which Python prints as \<^verbatim>\<open>1.0000000000000002\<close>.
\<close>

theorem metadata_similarity_double_above_one:
  "in_domain (shared3 (Some ''3'')) \<and> in_domain (shared3 (Some ''4'')) \<and>
   calculate_metadata_similarity_double (shared3 (Some ''3'')) (shared3 (Some ''4''))
     = 1 + 1 / 2 ^ 52 \<and>
   1 < calculate_metadata_similarity_double (shared3 (Some ''3'')) (shared3 (Some ''4''))"
  by (simp add: shared3_in_domain shared3_value)

section \<open>The content similarity\<close>

lemma cosine_similarity_commute: "cosine_similarity V u w = cosine_similarity V w u"
  by (simp add: cosine_similarity_def mult.commute)

lemma l2_normalize_zero: "l2_normalize V (\<lambda>t. 0) = (\<lambda>t. 0)"
  by (simp add: l2_normalize_def l2_norm_def fun_eq_iff)

lemma cosine_similarity_zero_left: "cosine_similarity V (\<lambda>t. 0) w = 0"
  by (simp add: cosine_similarity_def l2_normalize_def l2_norm_def)

lemma fit_transform_pair:
  "fit_transform v [x, y] =
     (if pair_vocabulary v x y = {} then None
      else Some (pair_kept v x y, [pair_row v x y x, pair_row v x y y]))"
proof -
  have df: "length (filter (\<lambda>ts. t \<in> set ts) [analyze v x, analyze v y]) =
      (if t \<in> set (analyze v x) then 1 else 0) + (if t \<in> set (analyze v y) then 1 else 0)" for t
    by simp
  have tot: "sum_list (map (\<lambda>ts. count_list ts t) [analyze v x, analyze v y]) =
      count_list (analyze v x) t + count_list (analyze v y) t" for t
    by simp
  have voc: "set (concat [analyze v x, analyze v y]) = pair_vocabulary v x y"
    by (simp add: pair_vocabulary_def)
  show ?thesis
    unfolding fit_transform_def Let_def list.map voc df tot
    by (simp add: pair_kept_def pair_row_def pair_idf_def)
qed

lemma pair_vocabulary_commute: "pair_vocabulary v y x = pair_vocabulary v x y"
  by (simp add: pair_vocabulary_def Un_commute)

lemma pair_kept_commute: "pair_kept v y x = pair_kept v x y"
  by (simp add: pair_kept_def pair_vocabulary_commute add.commute)

lemma pair_idf_commute: "pair_idf v y x = pair_idf v x y"
  by (simp add: pair_idf_def fun_eq_iff add.commute)

lemma pair_row_commute: "pair_row v y x d = pair_row v x y d"
  by (simp add: pair_row_def pair_kept_commute pair_idf_commute)

lemma content_similarity_pair:
  "calculate_content_similarity self a b =
     (if pair_vocabulary (tfidf self) (get_combined_text a) (get_combined_text b) = {} then 0
      else cosine_similarity (pair_kept (tfidf self) (get_combined_text a) (get_combined_text b))
             (pair_row (tfidf self) (get_combined_text a) (get_combined_text b) (get_combined_text a))
             (pair_row (tfidf self) (get_combined_text a) (get_combined_text b) (get_combined_text b)))"
  by (simp add: calculate_content_similarity_def Let_def fit_transform_pair)

lemma content_symmetric:
  "calculate_content_similarity self a b = calculate_content_similarity self b a"
  unfolding content_similarity_pair
  by (simp add: pair_vocabulary_commute pair_kept_commute pair_row_commute
      cosine_similarity_commute)

lemma pair_row_no_terms: "analyze v d = [] \<Longrightarrow> pair_row v x y d = (\<lambda>t. 0)"
  by (simp add: pair_row_def l2_normalize_zero)

lemma content_zero_left:
  "analyze (tfidf self) (get_combined_text a) = [] \<Longrightarrow> calculate_content_similarity self a b = 0"
  by (simp add: content_similarity_pair pair_row_no_terms cosine_similarity_zero_left)

lemma content_zero_right:
  "analyze (tfidf self) (get_combined_text b) = [] \<Longrightarrow> calculate_content_similarity self a b = 0"
  using content_zero_left [of self b a] by (simp add: content_symmetric)

lemma analyze_empty [simp]: "analyze v [] = []"
  by (simp add: analyze_def tokenize_def lower_def bigrams_def)

lemma fit_transform_None_iff:
  "fit_transform v docs = None \<longleftrightarrow> (\<forall>d\<in>set docs. analyze v d = [])"
  by (auto simp: fit_transform_def Let_def)

lemma content_zero_failure:
  "fit_transform (tfidf self) [get_combined_text a, get_combined_text b] = None \<Longrightarrow>
   calculate_content_similarity self a b = 0"
  by (simp add: calculate_content_similarity_def Let_def)


text \<open>
  Claim C9: both similarities are symmetric in the two books.
\<close>

theorem similarity_symmetric:
  "calculate_metadata_similarity a b = calculate_metadata_similarity b a \<and>
   calculate_content_similarity self a b = calculate_content_similarity self b a"
  using metadata_symmetric [of a b] content_symmetric [of self a b] by simp

lemma scored_member:
  "c \<in> set cs \<Longrightarrow> book_id c \<noteq> book_id t \<Longrightarrow>
   (c, combined self t c) \<in> set (find_similar_books self t cs (int (length cs)))"
  by (simp add: find_similar_books_full scored_def others_def)

text \<open>
  Claim C6: \<open>calculate_content_similarity\<close> is \<open>0\<close> when one of the two combined texts
  is empty or when the vectorizer fails, which it does exactly when neither text
  yields a term once the stop-words are removed. The failure is caught inside
  \<open>calculate_content_similarity\<close>, so the pass of \<open>find_similar_books\<close> goes on: the
  full ranking holds every candidate whose id differs from the target's, and a
  candidate on which the vectorizer fails is ranked with \<open>0.4\<close> times its metadata
  similarity.
\<close>

theorem content_similarity_degrades:
  "(get_combined_text a = [] \<or> get_combined_text b = [] \<or>
    fit_transform (tfidf self) [get_combined_text a, get_combined_text b] = None
      \<longrightarrow> calculate_content_similarity self a b = 0) \<and>
   (fit_transform (tfidf self) [get_combined_text a, get_combined_text b] = None
      \<longleftrightarrow> analyze (tfidf self) (get_combined_text a) = [] \<and>
          analyze (tfidf self) (get_combined_text b) = []) \<and>
   mset (map fst (find_similar_books self t cs (int (length cs)))) =
     mset (filter (\<lambda>c. book_id c \<noteq> book_id t) cs) \<and>
   (c \<in> set cs \<and> book_id c \<noteq> book_id t \<and>
    fit_transform (tfidf self) [get_combined_text t, get_combined_text c] = None
      \<longrightarrow> (c, 0.4 * calculate_metadata_similarity t c)
            \<in> set (find_similar_books self t cs (int (length cs))))"
proof -
  have 1: "calculate_content_similarity self a b = 0"
    if "get_combined_text a = [] \<or> get_combined_text b = [] \<or>
        fit_transform (tfidf self) [get_combined_text a, get_combined_text b] = None"
    using that content_zero_left [of self a b] content_zero_right [of self b a]
      content_zero_failure [of self a b]
    by auto
  have 2: "fit_transform (tfidf self) [get_combined_text a, get_combined_text b] = None
      \<longleftrightarrow> analyze (tfidf self) (get_combined_text a) = [] \<and>
          analyze (tfidf self) (get_combined_text b) = []"
    by (simp add: fit_transform_None_iff)
  have 3: "mset (map fst (find_similar_books self t cs (int (length cs)))) =
      mset (filter (\<lambda>c. book_id c \<noteq> book_id t) cs)"
  proof -
    have "mset (map fst (sort_reverse snd (scored self t cs))) = mset (map fst (scored self t cs))"
      by (simp only: mset_map mset_sort_reverse)
    also have "map fst (scored self t cs) = others t cs"
      by (simp add: scored_def comp_def)
    finally show ?thesis by (simp add: find_similar_books_full others_def)
  qed
  have 4: "(c, 0.4 * calculate_metadata_similarity t c)
      \<in> set (find_similar_books self t cs (int (length cs)))"
    if "c \<in> set cs \<and> book_id c \<noteq> book_id t \<and>
        fit_transform (tfidf self) [get_combined_text t, get_combined_text c] = None"
  proof -
    have "combined self t c = 0.4 * calculate_metadata_similarity t c"
      using that content_zero_failure [of self t c] by (simp add: combined_def)
    moreover have "(c, combined self t c) \<in> set (find_similar_books self t cs (int (length cs)))"
      using that by (intro scored_member) auto
    ultimately show ?thesis by (simp only:)
  qed
  from 1 2 3 4 show ?thesis by blast
qed

lemma rated_text: "get_combined_text (rated i r) = []"
  by (simp add: get_combined_text_def rated_def dict_get_def)

theorem content_similarity_degrades_witness:
  "get_combined_text (rated None 4) = [] \<and>
   fit_transform (tfidf demo_engine)
     [get_combined_text (rated None 4), get_combined_text (rated (Some ''1'') 4)] = None \<and>
   calculate_content_similarity demo_engine (rated None 4) (rated (Some ''1'') 4) = 0 \<and>
   (rated (Some ''1'') 4, 0.4 * calculate_metadata_similarity (rated None 4) (rated (Some ''1'') 4))
     \<in> set (find_similar_books demo_engine (rated None 4) [rated (Some ''1'') 4, book2] 2)"
proof -
  have f: "fit_transform (tfidf demo_engine)
      [get_combined_text (rated None 4), get_combined_text (rated (Some ''1'') 4)] = None"
    by (simp add: rated_text fit_transform_None_iff)
  have i: "book_id (rated (Some ''1'') 4) \<noteq> book_id (rated None 4)"
    by (simp add: rated_def)
  show ?thesis
    using content_similarity_degrades
      [of "rated None 4" "rated (Some ''1'') 4" demo_engine "rated None 4"
          "[rated (Some ''1'') 4, book2]" "rated (Some ''1'') 4"] f i
    by (simp add: rated_text)
qed

section \<open>Recommendations from a history\<close>

lemma add_scores_closed:
  "\<forall>e\<in>set sims. book_id (fst e) \<noteq> None \<Longrightarrow>
   add_scores sims n scores =
     Inr (\<lambda>i. if Some i \<in> (\<lambda>e. book_id (fst e)) ` set sims
               then Some (dict_get 0 (scores i) + contribution sims n i)
               else scores i)"
proof (induction sims arbitrary: scores)
  case Nil
  then show ?case by simp
next
  case (Cons e sims)
  obtain b s where e: "e = (b, s)" by (cases e)
  from Cons.prems obtain j where j: "book_id b = Some j" by (auto simp: e)
  have rest: "\<forall>e\<in>set sims. book_id (fst e) \<noteq> None" using Cons.prems by simp
  show ?case
  proof -
    have none: "(\<Sum>e\<leftarrow>filter (\<lambda>e. book_id (fst e) = Some j) sims. snd e / real n) = 0"
      if "\<forall>x\<in>set sims. Some j \<noteq> book_id (fst x)"
    proof -
      have "filter (\<lambda>e. book_id (fst e) = Some j) sims = []"
        using that by (auto simp: filter_empty_conv)
      then show ?thesis by simp
    qed
    show ?thesis
      using none
      by (simp add: e j Cons.IH [OF rest] contribution_def dict_get_def fun_eq_iff image_iff)
  qed
qed

lemma scored_candidates_closed:
  "\<forall>c\<in>set cs. book_id c \<noteq> None \<Longrightarrow>
   scored_candidates cs scores =
     Inr (map (\<lambda>c. (c, the (score_of scores c))) (filter (\<lambda>c. score_of scores c \<noteq> None) cs))"
  by (induction cs) (auto simp: score_of_def split: option.splits)

lemma scored_candidates_no_id:
  "\<exists>c\<in>set cs. book_id c = None \<Longrightarrow> scored_candidates cs scores = Inl KeyError"
proof (induction cs)
  case Nil
  then show ?case by simp
next
  case (Cons c cs)
  show ?case
  proof (cases "book_id c")
    case None
    then show ?thesis by simp
  next
    case (Some i)
    with Cons.prems have "\<exists>c\<in>set cs. book_id c = None" by auto
    from Cons.IH [OF this] Some show ?thesis by simp
  qed
qed

lemma find_similar_books_subset:
  "e \<in> set (find_similar_books self t cs n) \<Longrightarrow> fst e \<in> set cs"
  using set_slice_to [of "sort_reverse snd (scored self t cs)" n]
  by (auto simp: find_similar_books_eq scored_def others_def)

lemma history_loop_ok:
  "\<forall>c\<in>set cs. book_id c \<noteq> None \<Longrightarrow> \<exists>scores'. history_loop self hs cs n scores = Inr scores'"
proof (induction hs arbitrary: scores)
  case Nil
  then show ?case by simp
next
  case (Cons h hs)
  have "\<forall>e\<in>set (find_similar_books self h cs (int (length cs))). book_id (fst e) \<noteq> None"
    using Cons.prems find_similar_books_subset by blast
  from add_scores_closed [OF this] Cons.IH [OF Cons.prems] show ?case
    by (simp add: Let_def)
qed

text \<open>
  Claim C1, amended: with an empty history \<open>get_recommendations\<close> divides nothing and
  signals no invalid argument. It returns the empty list when every candidate carries
  an id; the only error is the \<^verbatim>\<open>KeyError\<close> of \<^verbatim>\<open>book["id"]\<close> on a candidate without
  one.
\<close>

theorem get_recommendations_empty_history:
  "get_recommendations self [] cs n =
     (if list_all (\<lambda>c. book_id c \<noteq> None) cs then Inr [] else Inl KeyError)"
proof (cases "list_all (\<lambda>c. book_id c \<noteq> None) cs")
  case True
  then have "\<forall>c\<in>set cs. book_id c \<noteq> None" by (simp add: list_all_iff)
  from scored_candidates_closed [OF this, of Map.empty] True show ?thesis
    by (simp add: get_recommendations_def accumulated_scores_def score_of_def
        sort_reverse_def slice_to_def split: option.splits)
next
  case False
  then have "\<exists>c\<in>set cs. book_id c = None" by (auto simp: list_all_iff)
  from scored_candidates_no_id [OF this, of Map.empty] False show ?thesis
    by (simp add: get_recommendations_def accumulated_scores_def)
qed


text \<open>
  Claim C1, as stated, asks for an error on the empty history. On the two books of the
  demonstration the call returns normally, with the empty list.
\<close>

theorem get_recommendations_empty_history_silent:
  "get_recommendations demo_engine [] [book1, book2] 5 = Inr []"
  by (simp add: get_recommendations_def accumulated_scores_def book1_def book2_def
      sort_reverse_def slice_to_def)

lemma contribution_mset:
  "mset xs = mset ys \<Longrightarrow> contribution xs n i = contribution ys n i"
proof -
  assume "mset xs = mset ys"
  then have "mset (map (\<lambda>e. snd e / real n) (filter (\<lambda>e. book_id (fst e) = Some i) xs)) =
             mset (map (\<lambda>e. snd e / real n) (filter (\<lambda>e. book_id (fst e) = Some i) ys))"
    by (simp only: mset_map mset_filter)
  then show ?thesis unfolding contribution_def by (metis sum_mset_sum_list)
qed

lemma filter_distinct_key:
  "distinct (map f xs) \<Longrightarrow> x \<in> set xs \<Longrightarrow> filter (\<lambda>y. f y = f x) xs = [x]"
proof (induction xs)
  case Nil
  then show ?case by simp
next
  case (Cons a xs)
  show ?case
  proof (cases "a = x")
    case True
    have "filter (\<lambda>y. f y = f x) xs = []"
      using Cons.prems(1) True by (auto simp: filter_empty_conv image_iff)
    with True show ?thesis by simp
  next
    case False
    then have "x \<in> set xs" using Cons.prems(2) by simp
    moreover have "f a \<noteq> f x" using Cons.prems(1) \<open>x \<in> set xs\<close> by auto
    ultimately show ?thesis using Cons by simp
  qed
qed

lemma single_history_scores:
  assumes ids: "\<forall>c\<in>set cs. book_id c \<noteq> None"
  shows "accumulated_scores self [h] cs =
     Inr (\<lambda>i. if Some i \<in> book_id ` set (others h cs)
               then Some (contribution (scored self h cs) 1 i) else None)"
proof -
  let ?L = "find_similar_books self h cs (int (length cs))"
  have L: "?L = sort_reverse snd (scored self h cs)" by (rule find_similar_books_full)
  have "\<forall>e\<in>set ?L. book_id (fst e) \<noteq> None"
    using ids find_similar_books_subset by blast
  then have "add_scores ?L 1 Map.empty =
      Inr (\<lambda>i. if Some i \<in> (\<lambda>e. book_id (fst e)) ` set ?L
                then Some (dict_get 0 (Map.empty i) + contribution ?L 1 i) else Map.empty i)"
    by (rule add_scores_closed)
  moreover have "dict_get 0 (Map.empty i) + x = x" for i :: string and x :: real
    by (simp add: dict_get_def)
  moreover have "(\<lambda>e. book_id (fst e)) ` set ?L = book_id ` set (others h cs)"
    by (simp add: L scored_def image_image)
  moreover have "contribution ?L 1 i = contribution (scored self h cs) 1 i" for i
    by (rule contribution_mset) (simp add: L)
  ultimately show ?thesis
    by (simp add: accumulated_scores_def Let_def cong: if_cong)
qed

lemma contribution_distinct:
  assumes "distinct (map book_id cs)" "c \<in> set cs" "book_id c \<noteq> book_id h" "book_id c = Some i"
  shows "contribution (scored self h cs) 1 i = combined self h c"
proof -
  have d: "distinct (map book_id (others h cs))"
    using assms(1) by (simp add: others_def distinct_map_filter)
  have m: "c \<in> set (others h cs)" using assms(2,3) by (simp add: others_def)
  have "filter (\<lambda>e. book_id (fst e) = Some i) (scored self h cs) =
        map (\<lambda>c. (c, combined self h c)) (filter (\<lambda>y. book_id y = book_id c) (others h cs))"
    by (simp add: scored_def filter_map comp_def assms(4))
  also have "\<dots> = [(c, combined self h c)]"
    using filter_distinct_key [OF d m] by simp
  finally show ?thesis by (simp add: contribution_def)
qed

text \<open>
  Claim C7, amended: for a history of one book \<open>h\<close> and candidates that carry pairwise
  distinct ids, the accumulated score of a candidate is absent when its id is the id
  of \<open>h\<close> and is otherwise the blended score of \<open>h\<close> and the candidate, which is the
  score \<open>find_similar_books\<close> gives it on the whole pool; and \<open>get_recommendations\<close>
  returns the books of \<open>find_similar_books h candidates n\<close>, so only candidates that
  received a contribution appear.
\<close>

theorem single_history_recommendations:
  assumes "\<forall>c\<in>set cs. book_id c \<noteq> None" and "distinct (map book_id cs)"
  shows "\<exists>scores. accumulated_scores self [h] cs = Inr scores \<and>
           (\<forall>c\<in>set cs. score_of scores c =
              (if book_id c = book_id h then None else Some (combined self h c))) \<and>
           (\<forall>e\<in>set (find_similar_books self h cs (int (length cs))).
              score_of scores (fst e) = Some (snd e)) \<and>
           get_recommendations self [h] cs n = Inr (map fst (find_similar_books self h cs n))"
proof -
  define scores where "scores = (\<lambda>i. if Some i \<in> book_id ` set (others h cs)
               then Some (contribution (scored self h cs) 1 i) else None)"
  have acc: "accumulated_scores self [h] cs = Inr scores"
    unfolding scores_def by (rule single_history_scores [OF assms(1)])
  have sc: "score_of scores c = (if book_id c = book_id h then None else Some (combined self h c))"
    if c: "c \<in> set cs" for c
  proof -
    from assms(1) c obtain i where i: "book_id c = Some i" by auto
    show ?thesis
    proof (cases "book_id c = book_id h")
      case True
      then have "Some i \<notin> book_id ` set (others h cs)" by (auto simp: others_def i)
      moreover have "score_of scores c = scores i" by (simp add: score_of_def i)
      ultimately show ?thesis using True by (simp add: scores_def)
    next
      case False
      then have "Some i \<in> book_id ` set (others h cs)" using c i by (force simp: others_def)
      moreover have "score_of scores c = scores i" by (simp add: score_of_def i)
      ultimately show ?thesis
        using False contribution_distinct [OF assms(2) c False i, of self]
        by (simp add: scores_def)
    qed
  qed
  have ents: "score_of scores (fst e) = Some (snd e)"
    if "e \<in> set (find_similar_books self h cs (int (length cs)))" for e
  proof -
    from that have "e \<in> set (scored self h cs)" by (simp add: find_similar_books_full)
    then obtain c where "c \<in> set cs" "book_id c \<noteq> book_id h" "e = (c, combined self h c)"
      by (auto simp: scored_def others_def)
    with sc [of c] show ?thesis by simp
  qed
  have "map (\<lambda>c. (c, the (score_of scores c))) (filter (\<lambda>c. score_of scores c \<noteq> None) cs) =
        scored self h cs"
  proof -
    have "filter (\<lambda>c. score_of scores c \<noteq> None) cs = others h cs"
      unfolding others_def by (rule filter_cong) (auto simp: sc)
    moreover have "map (\<lambda>c. (c, the (score_of scores c))) (others h cs) = scored self h cs"
      unfolding scored_def by (rule map_cong) (auto simp: sc others_def)
    ultimately show ?thesis by simp
  qed
  with scored_candidates_closed [OF assms(1), of scores]
  have "scored_candidates cs scores = Inr (scored self h cs)" by simp
  then have "get_recommendations self [h] cs n = Inr (map fst (find_similar_books self h cs n))"
    by (simp add: get_recommendations_def acc find_similar_books_eq)
  with acc sc ents show ?thesis by blast
qed


lemma rated_combined:
  "combined self (rated i r) (rated j r') =
     0.4 * (if r \<noteq> 0 \<and> r' \<noteq> 0 then 0.2 * (1 - \<bar>r - r'\<bar> / 5) else 0)"
proof -
  have "calculate_content_similarity self (rated i r) (rated j r') = 0"
    by (rule content_zero_left) (simp add: rated_text)
  moreover have "calculate_metadata_similarity (rated i r) (rated j r') =
      (if r \<noteq> 0 \<and> r' \<noteq> 0 then 0.2 * (1 - \<bar>r - r'\<bar> / 5) else 0)"
    by (simp add: calculate_metadata_similarity_def rated_def dict_get_def)
  ultimately show ?thesis by (simp only: combined_def)
qed

lemma rated_id [simp]: "book_id (rated i r) = i"
  by (simp add: rated_def)

lemma duplicate_ranking:
  "find_similar_books demo_engine (rated None 4) [rated (Some ''1'') 4, rated (Some ''1'') 4] 2 =
     [(rated (Some ''1'') 4, 2 / 25), (rated (Some ''1'') 4, 2 / 25)]"
  by (simp add: find_similar_books_eq scored_def others_def rated_combined
      sort_reverse_def slice_to_def)

text \<open>
  Claim C7, as stated, fails when the candidate list holds the same id twice: the
  scores are kept by id, so the two contributions add up to twice the score that
  \<open>find_similar_books\<close> gives the candidate.
\<close>

theorem duplicate_candidate_scores:
  "accumulated_scores demo_engine [rated None 4] [rated (Some ''1'') 4, rated (Some ''1'') 4] =
     Inr [''1'' \<mapsto> 4 / 25] \<and>
   find_similar_books demo_engine (rated None 4) [rated (Some ''1'') 4, rated (Some ''1'') 4] 2 =
     [(rated (Some ''1'') 4, 2 / 25), (rated (Some ''1'') 4, 2 / 25)]"
  using duplicate_ranking by (simp add: accumulated_scores_def dict_get_def)

lemma distinct_ranking:
  "find_similar_books demo_engine (rated None 4) [rated (Some ''1'') 4, rated (Some ''2'') 3] 1 =
     [(rated (Some ''1'') 4, 2 / 25)]"
  by (simp add: find_similar_books_eq scored_def others_def rated_combined
      sort_reverse_def slice_to_def)

theorem single_history_recommendations_witness:
  "distinct (map book_id [rated (Some ''1'') 4, rated (Some ''2'') 3]) \<and>
   get_recommendations demo_engine [rated None 4] [rated (Some ''1'') 4, rated (Some ''2'') 3] 1 =
     Inr [rated (Some ''1'') 4]"
proof -
  have i: "\<forall>c\<in>set [rated (Some ''1'') 4, rated (Some ''2'') 3]. book_id c \<noteq> None" by simp
  have d: "distinct (map book_id [rated (Some ''1'') 4, rated (Some ''2'') 3])" by simp
  from single_history_recommendations [OF i d, of demo_engine "rated None 4" 1] d distinct_ranking
  show ?thesis by auto
qed

text \<open>
  Claim C8: both sorts keep ties in the order of the candidate list. In the result of
  \<open>find_similar_books\<close> the entries of any one score are an initial part of the scored
  candidates of that score, in candidate order. When every candidate carries an id,
  \<open>get_recommendations\<close> returns normally, and the books of any one accumulated score in
  its result are an initial part of the candidates of that accumulated score, in
  candidate order.
\<close>

theorem ranking_stable:
  "(\<forall>k. prefix (filter (\<lambda>e. snd e = k) (find_similar_books self t cs n))
               (filter (\<lambda>e. snd e = k) (scored self t cs))) \<and>
   ((\<forall>c\<in>set cs. book_id c \<noteq> None) \<longrightarrow>
    (\<exists>scores out.
       accumulated_scores self hs cs = Inr scores \<and>
       get_recommendations self hs cs n = Inr out \<and>
       (\<forall>k. prefix (filter (\<lambda>b. score_of scores b = Some k) out)
                    (filter (\<lambda>b. score_of scores b = Some k) cs))))"
proof -
  have rec: "\<exists>scores out.
       accumulated_scores self hs cs = Inr scores \<and>
       get_recommendations self hs cs n = Inr out \<and>
       (\<forall>k. prefix (filter (\<lambda>b. score_of scores b = Some k) out)
                    (filter (\<lambda>b. score_of scores b = Some k) cs))"
    if ids: "\<forall>c\<in>set cs. book_id c \<noteq> None"
  proof -
    from history_loop_ok [OF ids] obtain scores
      where acc: "accumulated_scores self hs cs = Inr scores"
      unfolding accumulated_scores_def by blast
    define entries where
      "entries = map (\<lambda>c. (c, the (score_of scores c))) (filter (\<lambda>c. score_of scores c \<noteq> None) cs)"
    define out where "out = map fst (slice_to (sort_reverse snd entries) n)"
    have sc: "scored_candidates cs scores = Inr entries"
      unfolding entries_def by (rule scored_candidates_closed [OF ids])
    have rec: "get_recommendations self hs cs n = Inr out"
      by (simp add: get_recommendations_def acc sc out_def)
    have key: "score_of scores (fst e) = Some k \<longleftrightarrow> snd e = k" if "e \<in> set entries" for e k
      using that by (auto simp: entries_def)
    have "prefix (filter (\<lambda>b. score_of scores b = Some k) out)
                 (filter (\<lambda>b. score_of scores b = Some k) cs)" for k
    proof -
      have "filter (\<lambda>b. score_of scores b = Some k) out =
            map fst (filter (\<lambda>e. score_of scores (fst e) = Some k) (slice_to (sort_reverse snd entries) n))"
        by (simp add: out_def filter_map comp_def)
      also have "\<dots> = map fst (filter (\<lambda>e. snd e = k) (slice_to (sort_reverse snd entries) n))"
      proof -
        have "filter (\<lambda>e. score_of scores (fst e) = Some k) (slice_to (sort_reverse snd entries) n) =
              filter (\<lambda>e. snd e = k) (slice_to (sort_reverse snd entries) n)"
          by (rule filter_cong [OF refl]) (use key set_slice_to in fastforce)
        then show ?thesis by simp
      qed
      finally have 1: "filter (\<lambda>b. score_of scores b = Some k) out =
          map fst (filter (\<lambda>e. snd e = k) (slice_to (sort_reverse snd entries) n))" .
      have "filter (\<lambda>b. score_of scores b = Some k) cs =
            map fst (filter (\<lambda>e. score_of scores (fst e) = Some k) entries)"
        by (simp add: entries_def filter_map comp_def) (rule filter_cong, auto)
      also have "\<dots> = map fst (filter (\<lambda>e. snd e = k) entries)"
      proof -
        have "filter (\<lambda>e. score_of scores (fst e) = Some k) entries = filter (\<lambda>e. snd e = k) entries"
          by (rule filter_cong [OF refl]) (use key in blast)
        then show ?thesis by simp
      qed
      also have "\<dots> = map fst (filter (\<lambda>e. snd e = k) (sort_reverse snd entries))"
        by (simp add: sort_reverse_stable)
      finally have 2: "filter (\<lambda>b. score_of scores b = Some k) cs =
          map fst (filter (\<lambda>e. snd e = k) (sort_reverse snd entries))" .
      show ?thesis
        unfolding 1 2 by (intro map_mono_prefix prefix_filter_slice)
    qed
    with acc rec show ?thesis by blast
  qed
  show ?thesis using find_similar_books_stable rec by blast
qed

lemma tie_scores:
  "accumulated_scores demo_engine [rated None 4] [rated (Some ''1'') 4, rated (Some ''2'') 4] =
     Inr [''1'' \<mapsto> 2 / 25, ''2'' \<mapsto> 2 / 25]"
proof -
  have "find_similar_books demo_engine (rated None 4) [rated (Some ''1'') 4, rated (Some ''2'') 4] 2 =
     [(rated (Some ''1'') 4, 2 / 25), (rated (Some ''2'') 4, 2 / 25)]"
    by (simp add: find_similar_books_eq scored_def others_def rated_combined
        sort_reverse_def slice_to_def)
  then show ?thesis by (simp add: accumulated_scores_def dict_get_def)
qed

theorem ranking_stable_witness:
  "\<exists>out. get_recommendations demo_engine [rated None 4]
            [rated (Some ''1'') 4, rated (Some ''2'') 4] 2 = Inr out \<and>
         prefix (filter (\<lambda>b. score_of [''1'' \<mapsto> 2 / 25, ''2'' \<mapsto> 2 / 25] b = Some (2 / 25)) out)
                [rated (Some ''1'') 4, rated (Some ''2'') 4]"
proof -
  have i: "\<forall>c\<in>set [rated (Some ''1'') 4, rated (Some ''2'') 4]. book_id c \<noteq> None" by simp
  from ranking_stable [of demo_engine "rated None 4" "[rated (Some ''1'') 4, rated (Some ''2'') 4]" 2
      "[rated None 4]"] i
  obtain scores out where
    "accumulated_scores demo_engine [rated None 4] [rated (Some ''1'') 4, rated (Some ''2'') 4] = Inr scores"
    "get_recommendations demo_engine [rated None 4] [rated (Some ''1'') 4, rated (Some ''2'') 4] 2 = Inr out"
    "\<forall>k. prefix (filter (\<lambda>b. score_of scores b = Some k) out)
       (filter (\<lambda>b. score_of scores b = Some k) [rated (Some ''1'') 4, rated (Some ''2'') 4])"
    by blast
  moreover from this(1) have "scores = [''1'' \<mapsto> 2 / 25, ''2'' \<mapsto> 2 / 25]"
    by (simp add: tie_scores)
  moreover have "filter (\<lambda>b. score_of [''1'' \<mapsto> 2 / 25, ''2'' \<mapsto> 2 / 25] b = Some (2 / 25))
      [rated (Some ''1'') 4, rated (Some ''2'') 4] = [rated (Some ''1'') 4, rated (Some ''2'') 4]"
    by (simp add: score_of_def)
  ultimately show ?thesis by metis
qed

end
